theory Spec2Isabelle
  imports Main "HOL-Library.FSet" "HOL-Library.Sublist" "HOL-Library.Word"
begin

unbundle bit_operations_syntax

section \<open>Values of the program\<close>

subsection \<open>Strings\<close>

text \<open>
  A Python \<^verbatim>\<open>str\<close> is a sequence of Unicode code points: \<^verbatim>\<open>len\<close> and the slice
  \<^verbatim>\<open>s[:200]\<close> count code points. A string of the model is therefore a list of code
  points, each a natural number, and an ASCII literal of the source is written
  \<open>ascii ''...''\<close>.
\<close>

type_synonym pystr = "nat list"

definition ascii :: "string \<Rightarrow> pystr" where
  "ascii s = map of_char s"

text \<open>The decimal digits of a natural number, as \<^verbatim>\<open>str(n)\<close> prints them.\<close>

fun digits :: "nat \<Rightarrow> pystr" where
  "digits n = (if n < 10 then [48 + n] else digits (n div 10) @ [48 + n mod 10])"

declare digits.simps [simp del]

definition str_int :: "int \<Rightarrow> pystr" where
  "str_int i = (if i < 0 then 45 # digits (nat (- i)) else digits (nat i))"

subsection \<open>Parsed JSON\<close>

text \<open>
  What \<^verbatim>\<open>await res.json()\<close> returns: \<^verbatim>\<open>None\<close>, a bool, an int, a float, a str, a
  list or a dict with string keys. A float is kept as the 64 bits of its IEEE 754
  double; a dict is kept as its items, looked up with \<open>map_of\<close>.
\<close>

datatype json =
    JNull
  | JBool bool
  | JInt int
  | JFloat "64 word"
  | JStr pystr
  | JList "json list"
  | JObj "(pystr \<times> json) list"

text \<open>
  Python's truth value of a parsed JSON value (\<^verbatim>\<open>if x:\<close>, \<^verbatim>\<open>x or y\<close>, \<^verbatim>\<open>not x\<close>):
  \<^verbatim>\<open>None\<close>, \<^verbatim>\<open>False\<close>, zero, and the empty string, list and dict are false. A double is
  zero when all its bits but the sign are zero.
\<close>

fun truthy :: "json \<Rightarrow> bool" where
  "truthy JNull = False"
| "truthy (JBool b) = b"
| "truthy (JInt i) = (i \<noteq> 0)"
| "truthy (JFloat w) = (w AND 0x7FFFFFFFFFFFFFFF \<noteq> 0)"
| "truthy (JStr s) = (s \<noteq> [])"
| "truthy (JList xs) = (xs \<noteq> [])"
| "truthy (JObj kvs) = (kvs \<noteq> [])"

text \<open>
  \<^verbatim>\<open>f"{x}"\<close> formats \<open>x\<close> with \<^verbatim>\<open>str\<close>. For \<^verbatim>\<open>None\<close>, bools, ints and strings the
  result is written out. For floats, lists and dicts it is Python's \<^verbatim>\<open>repr\<close>, a
  builtin of the language: it is the parameter \<open>R\<close> of every function that formats a
  value.
\<close>

fun py_str :: "(json \<Rightarrow> pystr) \<Rightarrow> json \<Rightarrow> pystr" where
  "py_str R JNull = ascii ''None''"
| "py_str R (JBool b) = (if b then ascii ''True'' else ascii ''False'')"
| "py_str R (JInt i) = str_int i"
| "py_str R (JStr s) = s"
| "py_str R (JFloat w) = R (JFloat w)"
| "py_str R (JList xs) = R (JList xs)"
| "py_str R (JObj kvs) = R (JObj kvs)"

text \<open>\<^verbatim>\<open>d.get(k, default)\<close> on the items of a dict.\<close>

definition dict_get :: "(pystr \<times> json) list \<Rightarrow> string \<Rightarrow> json \<Rightarrow> json" where
  "dict_get d k dflt = (case map_of d (ascii k) of Some v \<Rightarrow> v | None \<Rightarrow> dflt)"

subsection \<open>Exceptions\<close>

text \<open>
  The handlers of \<^verbatim>\<open>fetch_recent_episodes\<close> tell three kinds of exception apart:
  \<^verbatim>\<open>asyncio.TimeoutError\<close>, \<^verbatim>\<open>aiohttp.ClientError\<close>, and every other \<^verbatim>\<open>Exception\<close>
  (the \<^verbatim>\<open>AttributeError\<close> of \<^verbatim>\<open>.get\<close> on a value that is no dict, the \<^verbatim>\<open>TypeError\<close> of
  a slice or a \<^verbatim>\<open>+\<close> on the wrong type).
\<close>

datatype exc = TimeoutError | ClientError | OtherError

section \<open>The Entry Differ: lines 72 to 96\<close>

record entry =
  title :: json
  title_jp :: json
  mal_id :: json
  score :: json
  status :: json
  aired_from :: json
  episodes :: json
  url :: json
  image_url :: json
  synopsis :: pystr

text \<open>
  The field \<open>image_url\<close> is the key \<^verbatim>\<open>'image'\<close> of the source's \<^verbatim>\<open>episode_info\<close>.
  Line 78: \<^verbatim>\<open>unique_id = f"{mal_id}_{title}"\<close>.
\<close>

definition unique_id :: "(json \<Rightarrow> pystr) \<Rightarrow> json \<Rightarrow> json \<Rightarrow> pystr" where
  "unique_id R mid ttl = py_str R mid @ ascii ''_'' @ py_str R ttl"

text \<open>
  Line 92:
  \<^verbatim>\<open>anime.get('synopsis', '')[:200] + '...' if anime.get('synopsis') else 'No synopsis available'\<close>.
  The conditional expression binds weakest. A true value that is no string raises: a
  list slices but does not add to \<^verbatim>\<open>'...'\<close>, the others do not slice.
\<close>

definition synopsis_of :: "(pystr \<times> json) list \<Rightarrow> exc + pystr" where
  "synopsis_of anime =
     (if truthy (dict_get anime ''synopsis'' JNull)
      then (case dict_get anime ''synopsis'' (JStr []) of
              JStr s \<Rightarrow> Inr (take 200 s @ ascii ''...'')
            | _ \<Rightarrow> Inl OtherError)
      else Inr (ascii ''No synopsis available''))"

text \<open>Line 88: \<^verbatim>\<open>anime.get('aired', {}).get('from')\<close>.\<close>

definition aired_from_of :: "(pystr \<times> json) list \<Rightarrow> exc + json" where
  "aired_from_of anime =
     (case dict_get anime ''aired'' (JObj []) of
        JObj a \<Rightarrow> Inr (dict_get a ''from'' JNull)
      | _ \<Rightarrow> Inl OtherError)"

text \<open>Line 91: \<^verbatim>\<open>anime.get('images', {}).get('jpg', {}).get('image_url', '')\<close>.\<close>

definition image_of :: "(pystr \<times> json) list \<Rightarrow> exc + json" where
  "image_of anime =
     (case dict_get anime ''images'' (JObj []) of
        JObj i \<Rightarrow>
          (case dict_get i ''jpg'' (JObj []) of
             JObj j \<Rightarrow> Inr (dict_get j ''image_url'' (JStr []))
           | _ \<Rightarrow> Inl OtherError)
      | _ \<Rightarrow> Inl OtherError)"

text \<open>Lines 82 to 93: the dict \<^verbatim>\<open>episode_info\<close>, its values evaluated in order.\<close>

definition episode_info :: "(pystr \<times> json) list \<Rightarrow> exc + entry" where
  "episode_info anime =
     (let ttl = dict_get anime ''title'' (JStr (ascii ''Unknown Anime''));
          te = dict_get anime ''title_english'' JNull;
          title_english = (if truthy te then te else ttl)
      in case aired_from_of anime of
           Inl e \<Rightarrow> Inl e
         | Inr af \<Rightarrow>
             (case image_of anime of
                Inl e \<Rightarrow> Inl e
              | Inr img \<Rightarrow>
                  (case synopsis_of anime of
                     Inl e \<Rightarrow> Inl e
                   | Inr syn \<Rightarrow>
                       Inr \<lparr> title = title_english,
                             title_jp = ttl,
                             mal_id = dict_get anime ''mal_id'' JNull,
                             score = dict_get anime ''score'' JNull,
                             status = dict_get anime ''status'' JNull,
                             aired_from = af,
                             episodes = dict_get anime ''episodes'' JNull,
                             url = dict_get anime ''url'' JNull,
                             image_url = img,
                             synopsis = syn \<rparr>)))"

text \<open>
  Lines 73 to 96, the body of the loop, on the pair of \<^verbatim>\<open>new_episodes\<close> and
  \<^verbatim>\<open>last_seen_titles\<close>. An element that is no dict raises at its first \<^verbatim>\<open>.get\<close>. An
  identity already in the set is skipped before \<^verbatim>\<open>episode_info\<close> is built; an exception
  while it is built leaves both the list and the set as they were.
\<close>

type_synonym differ_state = "entry list \<times> pystr fset"

fun process_anime :: "(json \<Rightarrow> pystr) \<Rightarrow> json \<Rightarrow> differ_state \<Rightarrow> exc + differ_state" where
  "process_anime R (JObj anime) (new_episodes, last_seen_titles) =
     (let ttl = dict_get anime ''title'' (JStr (ascii ''Unknown Anime''));
          mid = dict_get anime ''mal_id'' JNull;
          uid = unique_id R mid ttl
      in if uid |\<notin>| last_seen_titles
         then (case episode_info anime of
                 Inl e \<Rightarrow> Inl e
               | Inr info \<Rightarrow> Inr (new_episodes @ [info], finsert uid last_seen_titles))
         else Inr (new_episodes, last_seen_titles))"
| "process_anime R _ st = Inl OtherError"

text \<open>
  Line 72, the loop \<^verbatim>\<open>for anime in ...\<close>: an exception in the body ends the loop, and
  what the earlier iterations appended and inserted stays.
\<close>

fun process_list :: "(json \<Rightarrow> pystr) \<Rightarrow> json list \<Rightarrow> differ_state \<Rightarrow> exc option \<times> differ_state" where
  "process_list R [] st = (None, st)"
| "process_list R (anime # rest) st =
     (case process_anime R anime st of
        Inl e \<Rightarrow> (Some e, st)
      | Inr st' \<Rightarrow> process_list R rest st')"

text \<open>
  The Entry Differ of the specification: the loop over one raw batch, against a Dedup
  Store, returning the exception that ended it (if any), the new-list and the store.
\<close>

definition entry_differ :: "(json \<Rightarrow> pystr) \<Rightarrow> json list \<Rightarrow> pystr fset \<Rightarrow> exc option \<times> entry list \<times> pystr fset" where
  "entry_differ R batch store = process_list R batch ([], store)"

text \<open>The identity of a raw entry and of an \<open>entry\<close> built from it.\<close>

definition raw_identity :: "(json \<Rightarrow> pystr) \<Rightarrow> (pystr \<times> json) list \<Rightarrow> pystr" where
  "raw_identity R anime =
     unique_id R (dict_get anime ''mal_id'' JNull)
       (dict_get anime ''title'' (JStr (ascii ''Unknown Anime'')))"

definition identity :: "(json \<Rightarrow> pystr) \<Rightarrow> entry \<Rightarrow> pystr" where
  "identity R e = unique_id R (mal_id e) (title_jp e)"

text \<open>
  Vocabulary for the statements about the differ: the identity of a raw entry (an
  element that is no dict has none, its first \<^verbatim>\<open>.get\<close> raises), and the \<open>entry\<close> the
  source builds from a raw entry when no exception is raised on the way.
\<close>

definition identity_of_raw :: "(json \<Rightarrow> pystr) \<Rightarrow> json \<Rightarrow> pystr option" where
  "identity_of_raw R a = (case a of JObj anime \<Rightarrow> Some (raw_identity R anime) | _ \<Rightarrow> None)"

definition entry_of :: "json \<Rightarrow> entry option" where
  "entry_of a =
     (case a of
        JObj anime \<Rightarrow> (case episode_info anime of Inr e \<Rightarrow> Some e | Inl _ \<Rightarrow> None)
      | _ \<Rightarrow> None)"

section \<open>One fetch pass: lines 38 to 106\<close>

text \<open>
  An endpoint descriptor of the list \<^verbatim>\<open>apis\<close> (lines 39 to 50). The two endpoints are
  those of the source.
\<close>

record api =
  api_name :: string
  api_url :: string
  api_key :: string

definition current_season :: api where
  "current_season =
     \<lparr> api_name = ''Current Season'',
       api_url = ''https://api.jikan.moe/v4/seasons/now'',
       api_key = ''data'' \<rparr>"

definition currently_airing :: api where
  "currently_airing =
     \<lparr> api_name = ''Currently Airing'',
       api_url = ''https://api.jikan.moe/v4/top/anime?filter=airing&limit=25'',
       api_key = ''data'' \<rparr>"

definition apis :: "api list" where
  "apis = [current_season, currently_airing]"

text \<open>
  What the network does for one request, as the code sees it: \<^verbatim>\<open>session.get\<close> raises
  (a timeout after 15 seconds, a transport error, anything else), or a response arrives
  with a status, whose body \<^verbatim>\<open>res.json()\<close> parses or raises on.
\<close>

datatype http_outcome =
    Raised exc
  | Response int "exc + json"

text \<open>
  An endpoint fails when the request raises, when the status is not 200 (line 60), or
  when reading the body raises.
\<close>

definition endpoint_failed :: "http_outcome \<Rightarrow> bool" where
  "endpoint_failed out =
     (case out of
        Raised e \<Rightarrow> True
      | Response code body \<Rightarrow> code \<noteq> 200 \<or> (case body of Inl e \<Rightarrow> True | Inr d \<Rightarrow> False))"

text \<open>What the pass prints for an endpoint: which branch or handler ended it.\<close>

datatype api_log =
    Processed
  | FailedStatus int
  | NoAnimeFound
  | Caught exc

text \<open>
  Lines 56 to 106, the body of \<^verbatim>\<open>for api in apis\<close> with its \<^verbatim>\<open>try\<close>. Every exception is
  caught by one of the three handlers, which only print. A status other than 200 and a
  false \<^verbatim>\<open>anime_list\<close> \<^verbatim>\<open>continue\<close>. \<^verbatim>\<open>data.get\<close> raises when the body is no dict; a true
  \<^verbatim>\<open>anime_list\<close> that is no list raises in the slice or at the first \<^verbatim>\<open>.get\<close> of the loop.
  The list is cut to its first 10 elements.
\<close>

definition process_api ::
  "(json \<Rightarrow> pystr) \<Rightarrow> (api \<Rightarrow> http_outcome) \<Rightarrow> api \<Rightarrow> differ_state \<Rightarrow> api_log \<times> differ_state" where
  "process_api R net a st =
     (case net a of
        Raised e \<Rightarrow> (Caught e, st)
      | Response code body \<Rightarrow>
          if code \<noteq> 200 then (FailedStatus code, st)
          else (case body of
                  Inl e \<Rightarrow> (Caught e, st)
                | Inr (JObj d) \<Rightarrow>
                    (let anime_list = dict_get d (api_key a) (JList [])
                     in if \<not> truthy anime_list then (NoAnimeFound, st)
                        else (case anime_list of
                                JList xs \<Rightarrow>
                                  (case process_list R (take 10 xs) st of
                                     (None, st') \<Rightarrow> (Processed, st')
                                   | (Some e, st') \<Rightarrow> (Caught e, st'))
                              | _ \<Rightarrow> (Caught OtherError, st)))
                | Inr _ \<Rightarrow> (Caught OtherError, st)))"

fun for_apis ::
  "(json \<Rightarrow> pystr) \<Rightarrow> (api \<Rightarrow> http_outcome) \<Rightarrow> api list \<Rightarrow> differ_state \<Rightarrow> api_log list \<times> differ_state" where
  "for_apis R net [] st = ([], st)"
| "for_apis R net (a # rest) st =
     (case process_api R net a st of
        (l, st') \<Rightarrow> (case for_apis R net rest st' of (ls, st'') \<Rightarrow> (l # ls, st'')))"

text \<open>Lines 52 to 106: \<^verbatim>\<open>new_episodes = []\<close>, then the loop over the two endpoints.\<close>

definition fetch_pass ::
  "(json \<Rightarrow> pystr) \<Rightarrow> (api \<Rightarrow> http_outcome) \<Rightarrow> pystr fset \<Rightarrow> api_log list \<times> differ_state" where
  "fetch_pass R net store = for_apis R net apis ([], store)"

section \<open>The notification: lines 109 to 152\<close>

record embed_field =
  field_name :: pystr
  field_value :: pystr
  field_inline :: bool

record embed =
  embed_title :: pystr
  embed_color :: nat
  embed_description :: pystr
  embed_timestamp :: nat
  embed_fields :: "embed_field list"
  embed_footer :: "pystr option"
  embed_thumbnail :: "json option"

definition add_field :: "embed \<Rightarrow> embed_field \<Rightarrow> embed" where
  "add_field emb f = emb\<lparr>embed_fields := embed_fields emb @ [f]\<rparr>"

text \<open>The lines of one block; the code point 10 is the newline.\<close>

definition status_line :: "(json \<Rightarrow> pystr) \<Rightarrow> entry \<Rightarrow> pystr" where
  "status_line R anime = ascii ''**Status:** '' @ py_str R (status anime) @ [10]"

definition score_line :: "(json \<Rightarrow> pystr) \<Rightarrow> entry \<Rightarrow> pystr" where
  "score_line R anime = ascii ''**Score:** '' @ py_str R (score anime) @ ascii ''/10'' @ [10]"

definition episodes_line :: "(json \<Rightarrow> pystr) \<Rightarrow> entry \<Rightarrow> pystr" where
  "episodes_line R anime = ascii ''**Episodes:** '' @ py_str R (episodes anime) @ [10]"

definition synopsis_line :: "entry \<Rightarrow> pystr" where
  "synopsis_line anime = ascii ''**Synopsis:** '' @ synopsis anime @ [10]"

definition link_line :: "(json \<Rightarrow> pystr) \<Rightarrow> entry \<Rightarrow> pystr" where
  "link_line R anime = ascii ''[View on MAL]('' @ py_str R (url anime) @ ascii '')''"

text \<open>Lines 122 to 131: \<^verbatim>\<open>field_value\<close>, built by \<^verbatim>\<open>+=\<close>.\<close>

definition detail_value :: "(json \<Rightarrow> pystr) \<Rightarrow> entry \<Rightarrow> pystr" where
  "detail_value R anime =
     (let v0 = status_line R anime;
          v1 = (if truthy (score anime) then v0 @ score_line R anime else v0);
          v2 = (if truthy (episodes anime) then v1 @ episodes_line R anime else v1);
          v3 = v2 @ synopsis_line anime
      in v3 @ link_line R anime)"

text \<open>Lines 133 to 137; the code point 128250 is the television of the field's name.\<close>

definition detail_field :: "(json \<Rightarrow> pystr) \<Rightarrow> entry \<Rightarrow> embed_field" where
  "detail_field R anime =
     \<lparr> field_name = [128250, 32] @ py_str R (title anime),
       field_value = detail_value R anime,
       field_inline = False \<rparr>"

text \<open>Lines 140 to 144, for \<open>n = len(new_episodes)\<close>.\<close>

definition more_field :: "nat \<Rightarrow> embed_field" where
  "more_field n =
     \<lparr> field_name = ascii ''And more...'',
       field_value = str_int (int n - 5) @ ascii '' additional anime updates!'',
       field_inline = False \<rparr>"

text \<open>
  Lines 114 to 150, for the list \<open>first # rest\<close>: the branch is entered only when
  \<^verbatim>\<open>new_episodes\<close> is not empty, so \<^verbatim>\<open>new_episodes[0]\<close> is \<open>first\<close>. The timestamp is the
  clock's reading \<open>now\<close>.
\<close>

definition build_embed :: "(json \<Rightarrow> pystr) \<Rightarrow> nat \<Rightarrow> entry \<Rightarrow> entry list \<Rightarrow> embed" where
  "build_embed R now first rest =
     (let new_episodes = first # rest;
          e0 = \<lparr> embed_title = [127881, 32] @ ascii ''New Anime Updates!'',
                 embed_color = 0x00ff00,
                 embed_description = ascii ''Recently updated anime from MyAnimeList'',
                 embed_timestamp = now,
                 embed_fields = [],
                 embed_footer = None,
                 embed_thumbnail = None \<rparr>;
          e1 = foldl (\<lambda>emb anime. add_field emb (detail_field R anime)) e0 (take 5 new_episodes);
          e2 = (if length new_episodes > 5 then add_field e1 (more_field (length new_episodes)) else e1);
          e3 = e2\<lparr>embed_footer := Some (ascii ''Powered by Jikan API (MyAnimeList)'')\<rparr>
      in if truthy (image_url first) then e3\<lparr>embed_thumbnail := Some (image_url first)\<rparr> else e3)"

section \<open>The bot: its globals and commands\<close>

text \<open>
  The globals of lines 30 to 32, and the loop tasks of the event loop: a task is a
  number, \<open>live_tasks\<close> holds the tasks that are not done, \<open>next_task\<close> is the next one
  \<^verbatim>\<open>asyncio.create_task\<close> makes. A channel is a number too.
\<close>

record bot =
  check_task :: "nat option"
  last_seen_titles :: "pystr fset"
  notification_channel :: "nat option"
  live_tasks :: "nat fset"
  next_task :: nat

definition initial :: bot where
  "initial =
     \<lparr> check_task = None, last_seen_titles = {||}, notification_channel = None,
       live_tasks = {||}, next_task = 0 \<rparr>"

text \<open>\<^verbatim>\<open>check_task and not check_task.done()\<close>\<close>

definition task_running :: "bot \<Rightarrow> bool" where
  "task_running b = (case check_task b of None \<Rightarrow> False | Some t \<Rightarrow> t |\<in>| live_tasks b)"

text \<open>
  Lines 35 to 162, \<^verbatim>\<open>fetch_recent_episodes\<close>: the pass, then the notification. \<open>send_ok\<close>
  says whether \<^verbatim>\<open>notification_channel.send\<close> returns; when it raises, the exception
  leaves the function. The result holds the exception that left the function, the
  messages sent, the new-list, what was printed for each endpoint, and the globals.
  The other lines printed to the console (lines 110 and 155 to 162) change no state and
  are left out. The function is modelled as one step: a second pass running between
  two of its awaits is outside the model.
\<close>

record pass_result =
  raised :: "exc option"
  sent :: "(nat \<times> embed) list"
  found :: "entry list"
  endpoint_logs :: "api_log list"
  bot_after :: bot

definition fetch_recent_episodes ::
  "(json \<Rightarrow> pystr) \<Rightarrow> (api \<Rightarrow> http_outcome) \<Rightarrow> nat \<Rightarrow> bool \<Rightarrow> bot \<Rightarrow> pass_result" where
  "fetch_recent_episodes R net now send_ok b =
     (case fetch_pass R net (last_seen_titles b) of
        (logs, new_episodes, seen) \<Rightarrow>
          (let b' = b\<lparr>last_seen_titles := seen\<rparr>;
               quiet = \<lparr> raised = None, sent = [], found = new_episodes,
                         endpoint_logs = logs, bot_after = b' \<rparr>
           in case new_episodes of
                [] \<Rightarrow> quiet
              | first # rest \<Rightarrow>
                  (case notification_channel b' of
                     None \<Rightarrow> quiet
                   | Some ch \<Rightarrow>
                       if send_ok
                       then quiet\<lparr>sent := [(ch, build_embed R now first rest)]\<rparr>
                       else quiet\<lparr>raised := Some OtherError\<rparr>)))"

text \<open>The replies of the commands.\<close>

datatype reply =
    AlreadyRunning
  | Started
  | Stopped
  | NotRunning
  | ChannelUpdated
  | Cleared nat
  | TestCompleted

text \<open>
  Lines 187 to 214, \<^verbatim>\<open>start\<close> in the channel \<open>ch\<close>. Between the test of line 191 and the
  assignment of line 196 the handler does not await.
\<close>

definition start :: "nat \<Rightarrow> bot \<Rightarrow> reply \<times> bot" where
  "start ch b =
     (if task_running b then (AlreadyRunning, b)
      else (Started,
            b\<lparr> notification_channel := Some ch,
               check_task := Some (next_task b),
               live_tasks := finsert (next_task b) (live_tasks b),
               next_task := Suc (next_task b) \<rparr>))"

text \<open>
  Lines 216 to 228, \<^verbatim>\<open>stop\<close>: the task is cancelled and awaited, after which it is
  done. \<^verbatim>\<open>check_task\<close> keeps the done task.
\<close>

definition stop :: "bot \<Rightarrow> reply \<times> bot" where
  "stop b =
     (case check_task b of
        None \<Rightarrow> (NotRunning, b)
      | Some t \<Rightarrow>
          if t |\<in>| live_tasks b
          then (Stopped, b\<lparr>live_tasks := live_tasks b |-| {|t|}\<rparr>)
          else (NotRunning, b))"

text \<open>Lines 251 to 261.\<close>

definition setchannel :: "nat \<Rightarrow> bot \<Rightarrow> reply \<times> bot" where
  "setchannel ch b = (ChannelUpdated, b\<lparr>notification_channel := Some ch\<rparr>)"

text \<open>Lines 270 to 276: the count is taken before the set is emptied.\<close>

definition clear :: "bot \<Rightarrow> reply \<times> bot" where
  "clear b =
     (let count = fcard (last_seen_titles b)
      in (Cleared count, b\<lparr>last_seen_titles := {||}\<rparr>))"

text \<open>Lines 263 to 268, \<^verbatim>\<open>test\<close>: one pass, run by the command.\<close>

definition test_command ::
  "(json \<Rightarrow> pystr) \<Rightarrow> (api \<Rightarrow> http_outcome) \<Rightarrow> nat \<Rightarrow> bool \<Rightarrow> bot \<Rightarrow> reply option \<times> bot" where
  "test_command R net now send_ok b =
     (let r = fetch_recent_episodes R net now send_ok b
      in (if raised r = None then Some TestCompleted else None, bot_after r))"

text \<open>A loop task that ends by itself (an exception leaves \<^verbatim>\<open>check_loop\<close>) is done.\<close>

definition task_ends :: "nat \<Rightarrow> bot \<Rightarrow> bot" where
  "task_ends t b = b\<lparr>live_tasks := live_tasks b |-| {|t|}\<rparr>"

text \<open>
  The states the bot reaches from its initial state: by a command, by a pass of the
  loop task, or by the end of a task.
\<close>

inductive reachable :: "bot \<Rightarrow> bool" where
  reach_initial: "reachable initial"
| reach_start: "reachable b \<Longrightarrow> reachable (snd (start ch b))"
| reach_stop: "reachable b \<Longrightarrow> reachable (snd (stop b))"
| reach_setchannel: "reachable b \<Longrightarrow> reachable (snd (setchannel ch b))"
| reach_clear: "reachable b \<Longrightarrow> reachable (snd (clear b))"
| reach_pass: "reachable b \<Longrightarrow> reachable (bot_after (fetch_recent_episodes R net now send_ok b))"
| reach_task_ends: "reachable b \<Longrightarrow> reachable (task_ends t b)"

section \<open>Example values\<close>

text \<open>
  A raw entry with an id, a title and further items, as the endpoints return them. The
  examples format no float, list or dict, so the \<^verbatim>\<open>repr\<close> they are run with is never
  called; \<open>no_repr\<close> stands for it.
\<close>

definition raw_anime :: "int \<Rightarrow> string \<Rightarrow> (pystr \<times> json) list \<Rightarrow> json" where
  "raw_anime i t items = JObj ([(ascii ''mal_id'', JInt i), (ascii ''title'', JStr (ascii t))] @ items)"

definition no_repr :: "json \<Rightarrow> pystr" where
  "no_repr v = []"

text \<open>The entry the differ builds from \<open>raw_anime i t []\<close>.\<close>

definition plain_entry :: "int \<Rightarrow> string \<Rightarrow> entry" where
  "plain_entry i t =
     \<lparr> title = JStr (ascii t), title_jp = JStr (ascii t), mal_id = JInt i,
       score = JNull, status = JNull, aired_from = JNull, episodes = JNull,
       url = JNull, image_url = JStr [], synopsis = ascii ''No synopsis available'' \<rparr>"

text \<open>An entry with a status, a score, an episode count and a link.\<close>

definition airing_entry :: "int \<Rightarrow> string \<Rightarrow> entry" where
  "airing_entry i t =
     (plain_entry i t)
       \<lparr> score := JInt 9,
         status := JStr (ascii ''Currently Airing''),
         episodes := JInt 12,
         url := JStr (ascii ''https://myanimelist.net/anime/'' @ str_int i) \<rparr>"

text \<open>
  A raw entry whose \<^verbatim>\<open>aired\<close> is \<^verbatim>\<open>None\<close>: line 88 raises on it, when the loop gets that
  far.
\<close>

definition aired_null :: json where
  "aired_null = raw_anime 9 ''X'' [(ascii ''aired'', JNull)]"

text \<open>The items of a raw entry whose score and episode count are present and zero.\<close>

definition zero_scored :: "(pystr \<times> json) list" where
  "zero_scored =
     [(ascii ''mal_id'', JInt 1), (ascii ''title'', JStr (ascii ''A'')),
      (ascii ''score'', JInt 0), (ascii ''episodes'', JInt 0)]"

text \<open>The items of a raw entry with a score of 9 and 12 episodes.\<close>

definition nine_scored :: "(pystr \<times> json) list" where
  "nine_scored =
     [(ascii ''mal_id'', JInt 1), (ascii ''title'', JStr (ascii ''A'')),
      (ascii ''score'', JInt 9), (ascii ''episodes'', JInt 12)]"

text \<open>
  A network on which the request to the first endpoint times out and the second endpoint
  answers with three raw entries.
\<close>

definition timeout_then_three :: "api \<Rightarrow> http_outcome" where
  "timeout_then_three a =
     (if api_name a = ''Current Season'' then Raised TimeoutError
      else Response 200 (Inr (JObj [(ascii ''data'',
             JList [raw_anime 1 ''A'' [], raw_anime 2 ''B'' [], raw_anime 3 ''C'' []])])))"

section \<open>Facts about the Entry Differ\<close>

text \<open>
  The loop threads the new-list as an accumulator; \<open>entry_differ_step\<close> is the loop seen
  from the new-list it returns, and the inductions below go through it. The store only
  grows, by the identities of the entries the run appends, which are pairwise distinct
  and were not in the store.
\<close>

lemma ascii_Nil: "ascii [] = []"
  by (simp add: ascii_def)

lemma ascii_Cons: "ascii (c # cs) = of_char c # ascii cs"
  by (simp add: ascii_def)

text \<open>The equations that run the differ on a concrete batch.\<close>

lemmas run_simps =
  entry_differ_def dict_get_def unique_id_def str_int_def episode_info_def
  synopsis_of_def aired_from_of_def image_of_def Let_def ascii_Nil ascii_Cons
  raw_anime_def digits.simps

lemma episode_info_identity:
  "episode_info anime = Inr e \<Longrightarrow> identity R e = raw_identity R anime"
  by (auto simp: episode_info_def identity_def raw_identity_def Let_def split: sum.splits)

text \<open>The loop body does not read the new-list: it only appends to it.\<close>

lemma process_anime_acc:
  "process_anime R a (n, s) = Inr (n', s') \<Longrightarrow>
     \<exists>added. n' = n @ added \<and> (\<forall>m. process_anime R a (m, s) = Inr (m @ added, s'))"
  by (cases a) (auto simp: Let_def split: if_splits sum.splits)

lemma process_anime_raises:
  "process_anime R a (n, s) = Inl e \<Longrightarrow> process_anime R a (m, s) = Inl e"
  by (cases a) (auto simp: Let_def split: if_splits sum.splits)

lemma process_list_acc:
  "process_list R b (n, s) = (x, n', s') \<Longrightarrow>
     \<exists>added. n' = n @ added \<and> (\<forall>m. process_list R b (m, s) = (x, m @ added, s'))"
proof (induction b arbitrary: n s)
  case Nil
  then show ?case by simp
next
  case (Cons a rest)
  show ?case
  proof (cases "process_anime R a (n, s)")
    case (Inl e)
    with Cons.prems have "x = Some e" "n' = n" "s' = s" by simp_all
    moreover have "\<And>m. process_anime R a (m, s) = Inl e"
      using Inl by (rule process_anime_raises)
    ultimately show ?thesis by simp
  next
    case (Inr st1)
    obtain n1 s1 where st1: "st1 = (n1, s1)" by (cases st1)
    from process_anime_acc [OF Inr [unfolded st1]]
    obtain add1 where a1: "n1 = n @ add1" "\<And>m. process_anime R a (m, s) = Inr (m @ add1, s1)"
      by blast
    from Cons.prems Inr st1 have "process_list R rest (n1, s1) = (x, n', s')" by simp
    from Cons.IH [OF this]
    obtain add2 where a2: "n' = n1 @ add2" "\<And>m. process_list R rest (m, s1) = (x, m @ add2, s')"
      by blast
    have "n' = n @ (add1 @ add2)" using a1 a2 by simp
    moreover have "\<And>m. process_list R (a # rest) (m, s) = (x, m @ (add1 @ add2), s')"
      using a1 a2 by simp
    ultimately show ?thesis by blast
  qed
qed

lemma entry_differ_Nil: "entry_differ R [] s = (None, [], s)"
  by (simp add: entry_differ_def)

lemma entry_differ_Cons:
  "entry_differ R (a # rest) s =
     (case process_anime R a ([], s) of
        Inl e \<Rightarrow> (Some e, [], s)
      | Inr (n1, s1) \<Rightarrow>
          (case entry_differ R rest s1 of (x, n2, s2) \<Rightarrow> (x, n1 @ n2, s2)))"
proof (cases "process_anime R a ([], s)")
  case (Inl e)
  then show ?thesis by (simp add: entry_differ_def)
next
  case (Inr st1)
  obtain n1 s1 where st1: "st1 = (n1, s1)" by (cases st1)
  obtain x n2 s2 where r: "process_list R rest ([], s1) = (x, n2, s2)"
    by (cases "process_list R rest ([], s1)") auto
  from process_list_acc [OF r] have "process_list R rest (n1, s1) = (x, n1 @ n2, s2)"
    by auto
  with Inr st1 r show ?thesis by (simp add: entry_differ_def)
qed

lemma process_anime_cases:
  "process_anime R a ([], s) =
     (case a of
        JObj anime \<Rightarrow>
          if raw_identity R anime |\<in>| s then Inr ([], s)
          else (case episode_info anime of
                  Inl e \<Rightarrow> Inl e
                | Inr info \<Rightarrow> Inr ([info], finsert (raw_identity R anime) s))
      | _ \<Rightarrow> Inl OtherError)"
  by (cases a) (auto simp: Let_def raw_identity_def split: sum.splits)

lemma entry_differ_step:
  "entry_differ R (a # rest) s =
     (case a of
        JObj anime \<Rightarrow>
          if raw_identity R anime |\<in>| s then entry_differ R rest s
          else (case episode_info anime of
                  Inl e \<Rightarrow> (Some e, [], s)
                | Inr info \<Rightarrow>
                    (case entry_differ R rest (finsert (raw_identity R anime) s) of
                       (x, n2, s2) \<Rightarrow> (x, info # n2, s2)))
      | _ \<Rightarrow> (Some OtherError, [], s))"
  by (cases a) (auto simp: entry_differ_Cons process_anime_cases split: sum.splits prod.splits)

lemma process_anime_inserts:
  "process_anime R a (n, s) = Inr (n', s') \<Longrightarrow>
     \<exists>u. identity_of_raw R a = Some u \<and> u |\<in>| s'"
  by (cases a)
     (auto simp: Let_def identity_of_raw_def raw_identity_def split: if_splits sum.splits)

lemma differ_store_mono:
  "entry_differ R b s = (x, n, s') \<Longrightarrow> s |\<subseteq>| s'"
proof (induction b arbitrary: s x n s')
  case Nil
  then show ?case by (simp add: entry_differ_Nil)
next
  case (Cons a rest)
  then show ?case
    by (fastforce simp: entry_differ_step split: json.splits if_splits sum.splits prod.splits)
qed

lemma differ_store:
  "entry_differ R b s = (x, n, s') \<Longrightarrow> s' = s |\<union>| fset_of_list (map (identity R) n)"
proof (induction b arbitrary: s x n s')
  case Nil
  then show ?case by (simp add: entry_differ_Nil)
next
  case (Cons a rest)
  then show ?case
    by (fastforce simp: entry_differ_step episode_info_identity
        split: json.splits if_splits sum.splits prod.splits)
qed

lemma differ_new_fresh:
  "entry_differ R b s = (x, n, s') \<Longrightarrow>
     distinct (map (identity R) n) \<and> (\<forall>e \<in> set n. identity R e |\<notin>| s)"
proof (induction b arbitrary: s x n s')
  case Nil
  then show ?case by (simp add: entry_differ_Nil)
next
  case (Cons a rest)
  then show ?case
    by (fastforce simp: entry_differ_step episode_info_identity
        split: json.splits if_splits sum.splits prod.splits)
qed

lemma differ_again:
  "entry_differ R b s = (x, n, s') \<Longrightarrow> entry_differ R b s' = (x, [], s')"
proof (induction b arbitrary: s x n s')
  case Nil
  then show ?case by (simp add: entry_differ_Nil)
next
  case (Cons a rest)
  show ?case
  proof (cases a)
    case (JObj anime)
    show ?thesis
    proof (cases "raw_identity R anime |\<in>| s")
      case True
      with Cons.prems JObj have r: "entry_differ R rest s = (x, n, s')"
        by (simp add: entry_differ_step)
      from differ_store_mono [OF r] True have "raw_identity R anime |\<in>| s'" by auto
      with Cons.IH [OF r] JObj show ?thesis by (simp add: entry_differ_step)
    next
      case False
      show ?thesis
      proof (cases "episode_info anime")
        case (Inl e)
        with Cons.prems JObj False show ?thesis by (simp add: entry_differ_step)
      next
        case (Inr info)
        obtain x2 n2 s2 where r: "entry_differ R rest (finsert (raw_identity R anime) s) = (x2, n2, s2)"
          by (cases "entry_differ R rest (finsert (raw_identity R anime) s)") auto
        with Cons.prems JObj False Inr have eq: "x2 = x" "s2 = s'"
          by (simp_all add: entry_differ_step)
        from differ_store_mono [OF r] eq have "raw_identity R anime |\<in>| s'" by auto
        with Cons.IH [OF r] eq JObj show ?thesis by (simp add: entry_differ_step)
      qed
    qed
  qed (use Cons.prems in \<open>simp_all add: entry_differ_step\<close>)
qed

text \<open>
  On a batch of raw entries that are all well formed, the run raises no exception; a run
  without exception leaves every identity of the batch in the store.
\<close>

lemma differ_no_exception:
  "\<forall>a \<in> set b. entry_of a \<noteq> None \<Longrightarrow> fst (entry_differ R b s) = None"
proof (induction b arbitrary: s)
  case Nil
  then show ?case by (simp add: entry_differ_Nil)
next
  case (Cons a rest)
  from Cons.prems obtain anime info where a: "a = JObj anime" "episode_info anime = Inr info"
    by (cases a; cases "episode_info (case a of JObj d \<Rightarrow> d | _ \<Rightarrow> [])")
       (auto simp: entry_of_def split: sum.splits)
  from Cons.prems have IH: "fst (entry_differ R rest t) = None" for t
    by (intro Cons.IH) simp
  show ?case
  proof (cases "raw_identity R anime |\<in>| s")
    case True
    with a IH [of s] show ?thesis by (simp add: entry_differ_step)
  next
    case False
    with a IH [of "finsert (raw_identity R anime) s"] show ?thesis
      by (simp add: entry_differ_step case_prod_beta)
  qed
qed

lemma differ_covers:
  "entry_differ R b s = (None, n, s') \<Longrightarrow> a \<in> set b \<Longrightarrow>
     \<exists>u. identity_of_raw R a = Some u \<and> u |\<in>| s'"
proof (induction b arbitrary: s n s')
  case Nil
  then show ?case by simp
next
  case (Cons x rest)
  show ?case
  proof (cases x)
    case (JObj anime)
    show ?thesis
    proof (cases "raw_identity R anime |\<in>| s")
      case True
      with Cons.prems JObj have r: "entry_differ R rest s = (None, n, s')"
        by (simp add: entry_differ_step)
      show ?thesis
      proof (cases "a = x")
        case True
        with JObj \<open>raw_identity R anime |\<in>| s\<close> differ_store_mono [OF r] show ?thesis
          by (auto simp: identity_of_raw_def)
      next
        case False
        with Cons.prems have "a \<in> set rest" by simp
        from Cons.IH [OF r this] show ?thesis .
      qed
    next
      case False
      from Cons.prems JObj False obtain info where info: "episode_info anime = Inr info"
        by (cases "episode_info anime") (simp_all add: entry_differ_step)
      obtain x2 n2 s2 where r: "entry_differ R rest (finsert (raw_identity R anime) s) = (x2, n2, s2)"
        by (cases "entry_differ R rest (finsert (raw_identity R anime) s)") auto
      with Cons.prems JObj False info have eq: "x2 = None" "s2 = s'"
        by (simp_all add: entry_differ_step)
      show ?thesis
      proof (cases "a = x")
        case True
        with JObj differ_store_mono [OF r] eq show ?thesis
          by (auto simp: identity_of_raw_def)
      next
        case False
        with Cons.prems have "a \<in> set rest" by simp
        from Cons.IH [OF r [unfolded eq] this] show ?thesis .
      qed
    qed
  qed (use Cons.prems in \<open>simp_all add: entry_differ_step\<close>)
qed

lemma differ_full:
  "\<forall>a \<in> set b. entry_of a \<noteq> None \<Longrightarrow>
   distinct (map (identity_of_raw R) b) \<Longrightarrow>
   \<forall>a \<in> set b. \<forall>u. identity_of_raw R a = Some u \<longrightarrow> u |\<notin>| s \<Longrightarrow>
   map Some (fst (snd (entry_differ R b s))) = map entry_of b"
proof (induction b arbitrary: s)
  case Nil
  then show ?case by (simp add: entry_differ_Nil)
next
  case (Cons x rest)
  from Cons.prems(1) obtain anime info where x: "x = JObj anime" "episode_info anime = Inr info"
    by (cases x; cases "episode_info (case x of JObj d \<Rightarrow> d | _ \<Rightarrow> [])")
       (auto simp: entry_of_def split: sum.splits)
  from Cons.prems(3) x have fresh: "raw_identity R anime |\<notin>| s"
    by (simp add: identity_of_raw_def)
  have idx: "identity_of_raw R x = Some (raw_identity R anime)"
    using x by (simp add: identity_of_raw_def)
  from Cons.prems(2) have notin: "identity_of_raw R x \<notin> identity_of_raw R ` set rest"
    by simp
  have rest_fresh: "\<forall>a \<in> set rest. \<forall>u. identity_of_raw R a = Some u \<longrightarrow>
      u |\<notin>| finsert (raw_identity R anime) s"
  proof (intro ballI allI impI)
    fix a u
    assume a: "a \<in> set rest" and u: "identity_of_raw R a = Some u"
    from Cons.prems(3) a u have "u |\<notin>| s" by simp
    moreover from notin a u idx have "u \<noteq> raw_identity R anime" by force
    ultimately show "u |\<notin>| finsert (raw_identity R anime) s" by simp
  qed
  have "map Some (fst (snd (entry_differ R rest (finsert (raw_identity R anime) s)))) = map entry_of rest"
    using Cons.IH [OF _ _ rest_fresh] Cons.prems(1,2) by simp
  moreover have "entry_of x = Some info"
    using x by (simp add: entry_of_def)
  ultimately show ?case
    using x fresh by (simp add: entry_differ_step case_prod_beta)
qed

lemma count_distinct_le:
  "distinct (map f xs) \<Longrightarrow> length (filter (\<lambda>e. f e = u) xs) \<le> 1"
proof (induction xs)
  case Nil
  then show ?case by simp
next
  case (Cons x xs)
  show ?case
  proof (cases "f x = u")
    case True
    from Cons.prems have "f x \<notin> f ` set xs" by simp
    with True have "\<forall>e \<in> set xs. f e \<noteq> u" by blast
    then have "filter (\<lambda>e. f e = u) xs = []" by (simp add: filter_empty_conv)
    with True show ?thesis by simp
  next
    case False
    with Cons show ?thesis by simp
  qed
qed

lemma count_member_ge:
  "u \<in> f ` set xs \<Longrightarrow> 1 \<le> length (filter (\<lambda>e. f e = u) xs)"
proof -
  assume "u \<in> f ` set xs"
  then obtain e where "e \<in> set xs" "f e = u" by auto
  then have "e \<in> set (filter (\<lambda>e. f e = u) xs)" by simp
  then have "filter (\<lambda>e. f e = u) xs \<noteq> []" by force
  then show ?thesis by (cases "filter (\<lambda>e. f e = u) xs") simp_all
qed

lemma process_list_differ:
  "process_list R b (n, s) = (x, n', s') \<Longrightarrow>
     \<exists>added. n' = n @ added \<and> entry_differ R b s = (x, added, s')"
  using process_list_acc [of R b n s x n' s'] by (auto simp: entry_differ_def)

text \<open>
  Two runs one after the other add pairwise distinct identities, none of them in the
  store before the first run.
\<close>

lemma adds_compose:
  assumes "distinct (map f xs)" and "distinct (map f ys)"
    and "\<forall>e \<in> set xs. f e |\<notin>| s"
    and "\<forall>e \<in> set ys. f e |\<notin>| s |\<union>| fset_of_list (map f xs)"
  shows "distinct (map f (xs @ ys)) \<and> (\<forall>e \<in> set (xs @ ys). f e |\<notin>| s) \<and>
         (s |\<union>| fset_of_list (map f xs)) |\<union>| fset_of_list (map f ys) =
           s |\<union>| fset_of_list (map f (xs @ ys))"
proof -
  have out: "f e |\<notin>| s \<and> f e \<notin> f ` set xs" if "e \<in> set ys" for e
    using assms(4) that by (simp add: fset_of_list.rep_eq)
  have "f ` set xs \<inter> f ` set ys = {}"
  proof (rule equals0I)
    fix u assume "u \<in> f ` set xs \<inter> f ` set ys"
    then have u1: "u \<in> f ` set xs" and u2: "u \<in> f ` set ys" by simp_all
    from u2 obtain e where e: "u = f e" "e \<in> set ys" by (rule imageE)
    from out [OF e(2)] u1 e(1) show False by simp
  qed
  then have c3: "distinct (map f (xs @ ys))"
    using assms(1,2) by simp
  have c4: "\<forall>e \<in> set (xs @ ys). f e |\<notin>| s"
    using assms(3) out by auto
  have c2: "(s |\<union>| fset_of_list (map f xs)) |\<union>| fset_of_list (map f ys) =
           s |\<union>| fset_of_list (map f (xs @ ys))"
    by (simp add: funion_assoc)
  from c2 c3 c4 show ?thesis by blast
qed

lemma process_list_adds:
  assumes "process_list R b (n, s) = (x, n', s')"
  shows "\<exists>added. n' = n @ added \<and> s' = s |\<union>| fset_of_list (map (identity R) added) \<and>
           distinct (map (identity R) added) \<and> (\<forall>e \<in> set added. identity R e |\<notin>| s)"
proof -
  from process_list_differ [OF assms] obtain added where
    a: "n' = n @ added" "entry_differ R b s = (x, added, s')" by blast
  from a(1) differ_store [OF a(2)] differ_new_fresh [OF a(2)] show ?thesis by blast
qed

section \<open>Facts about the fetch pass\<close>

lemma process_api_failed:
  "endpoint_failed (net a) \<Longrightarrow>
     snd (process_api R net a st) = st \<and> fst (process_api R net a st) \<noteq> Processed"
proof (cases "net a")
  case (Raised e)
  then show ?thesis by (simp add: process_api_def)
next
  case (Response code body)
  assume "endpoint_failed (net a)"
  with Response have "code \<noteq> 200 \<or> (\<exists>e. body = Inl e)"
    by (cases body) (simp_all add: endpoint_failed_def)
  with Response show ?thesis by (auto simp: process_api_def)
qed

text \<open>The list an endpoint hands to the loop of line 72, when it gets that far.\<close>

lemma process_api_list:
  assumes "net a = Response 200 (Inr (JObj d))"
    and "dict_get d (api_key a) (JList []) = JList xs"
  shows "snd (process_api R net a st) = snd (process_list R (take 10 xs) st)"
proof (cases xs)
  case Nil
  with assms show ?thesis by (simp add: process_api_def)
next
  case (Cons y ys)
  obtain x st' where r: "process_list R (take 10 xs) st = (x, st')"
    by (cases "process_list R (take 10 xs) st") auto
  from assms Cons r show ?thesis
    by (cases x) (simp_all add: process_api_def)
qed

lemma process_api_other:
  assumes "\<not> (\<exists>d xs. net a = Response 200 (Inr (JObj d)) \<and>
             dict_get d (api_key a) (JList []) = JList xs)"
  shows "snd (process_api R net a st) = st"
proof (cases "net a")
  case (Raised e)
  then show ?thesis by (simp add: process_api_def)
next
  case (Response code body)
  show ?thesis
  proof (cases "code = 200")
    case False
    with Response show ?thesis by (simp add: process_api_def)
  next
    case True
    show ?thesis
    proof (cases body)
      case (Inl e)
      with Response True show ?thesis by (simp add: process_api_def)
    next
      case (Inr data)
      show ?thesis
      proof (cases data)
        case (JObj d)
        with assms Response True Inr
        have nl: "\<forall>xs. dict_get d (api_key a) (JList []) \<noteq> JList xs" by auto
        from Response True Inr JObj nl show ?thesis
          by (cases "dict_get d (api_key a) (JList [])") (simp_all add: process_api_def)
      qed (use Response True Inr in \<open>simp_all add: process_api_def\<close>)
    qed
  qed
qed

lemma for_apis_logs: "length (fst (for_apis R net as st)) = length as"
  by (induction as arbitrary: st) (simp_all add: split_beta)

text \<open>What one endpoint, and the loop over the endpoints, adds to the list and the store.\<close>

lemma process_api_adds:
  assumes "process_api R net a (n, s) = (l, n', s')"
  shows "\<exists>added. n' = n @ added \<and> s' = s |\<union>| fset_of_list (map (identity R) added) \<and>
           distinct (map (identity R) added) \<and> (\<forall>e \<in> set added. identity R e |\<notin>| s)"
proof (cases "\<exists>d xs. net a = Response 200 (Inr (JObj d)) \<and>
             dict_get d (api_key a) (JList []) = JList xs")
  case True
  then obtain d xs where h: "net a = Response 200 (Inr (JObj d))"
    "dict_get d (api_key a) (JList []) = JList xs" by blast
  have "snd (process_api R net a (n, s)) = snd (process_list R (take 10 xs) (n, s))"
    using h by (rule process_api_list)
  with assms have "snd (process_list R (take 10 xs) (n, s)) = (n', s')" by simp
  then obtain x where r: "process_list R (take 10 xs) (n, s) = (x, n', s')"
    by (cases "process_list R (take 10 xs) (n, s)") simp
  from process_list_adds [OF r] show ?thesis .
next
  case False
  have "snd (process_api R net a (n, s)) = (n, s)"
    using False by (rule process_api_other)
  with assms have "n' = n @ []" "s' = s |\<union>| fset_of_list (map (identity R) [])" by simp_all
  moreover have "distinct (map (identity R) [])" "\<forall>e \<in> set []. identity R e |\<notin>| s" by simp_all
  ultimately show ?thesis by blast
qed

lemma for_apis_adds:
  "for_apis R net as (n, s) = (ls, n', s') \<Longrightarrow>
     \<exists>added. n' = n @ added \<and> s' = s |\<union>| fset_of_list (map (identity R) added) \<and>
       distinct (map (identity R) added) \<and> (\<forall>e \<in> set added. identity R e |\<notin>| s)"
proof (induction as arbitrary: n s ls n' s')
  case Nil
  then have "n' = n @ []" "s' = s |\<union>| fset_of_list (map (identity R) [])" by simp_all
  moreover have "distinct (map (identity R) [])" "\<forall>e \<in> set []. identity R e |\<notin>| s" by simp_all
  ultimately show ?case by blast
next
  case (Cons a rest)
  obtain l n1 s1 where p: "process_api R net a (n, s) = (l, n1, s1)"
    by (cases "process_api R net a (n, s)") auto
  obtain ls2 n2 s2 where f: "for_apis R net rest (n1, s1) = (ls2, n2, s2)"
    by (cases "for_apis R net rest (n1, s1)") auto
  from Cons.prems p f have eq: "n' = n2" "s' = s2" by simp_all
  from process_api_adds [OF p] obtain add1 where
    a1: "n1 = n @ add1" "s1 = s |\<union>| fset_of_list (map (identity R) add1)"
        "distinct (map (identity R) add1)" "\<forall>e \<in> set add1. identity R e |\<notin>| s" by blast
  from Cons.IH [OF f] obtain add2 where
    a2: "n2 = n1 @ add2" "s2 = s1 |\<union>| fset_of_list (map (identity R) add2)"
        "distinct (map (identity R) add2)" "\<forall>e \<in> set add2. identity R e |\<notin>| s1" by blast
  have c1: "n' = n @ (add1 @ add2)" using eq a1(1) a2(1) by simp
  from a2(4) have a24: "\<forall>e \<in> set add2. identity R e |\<notin>| s |\<union>| fset_of_list (map (identity R) add1)"
    unfolding a1(2) .
  note comp = adds_compose [OF a1(3) a2(3) a1(4) a24]
  from comp have c3: "distinct (map (identity R) (add1 @ add2))" by (rule conjunct1)
  from comp have c4: "\<forall>e \<in> set (add1 @ add2). identity R e |\<notin>| s"
    by (rule conjunct1 [OF conjunct2])
  from comp have "(s |\<union>| fset_of_list (map (identity R) add1)) |\<union>| fset_of_list (map (identity R) add2) =
           s |\<union>| fset_of_list (map (identity R) (add1 @ add2))"
    by (rule conjunct2 [OF conjunct2])
  then have c2: "s' = s |\<union>| fset_of_list (map (identity R) (add1 @ add2))"
    unfolding eq(2) a2(2) a1(2) .
  from c1 c2 c3 c4 show ?case by blast
qed

lemma fetch_pass_adds:
  assumes "fetch_pass R net s = (ls, new, s')"
  shows "s' = s |\<union>| fset_of_list (map (identity R) new) \<and>
         distinct (map (identity R) new) \<and> (\<forall>e \<in> set new. identity R e |\<notin>| s)"
proof -
  from assms have "for_apis R net apis ([], s) = (ls, new, s')" by (simp add: fetch_pass_def)
  from for_apis_adds [OF this] show ?thesis by simp
qed

lemma fetch_pass_two:
  "fetch_pass R net store =
     (case process_api R net current_season ([], store) of
        (l1, st1) \<Rightarrow>
          (case process_api R net currently_airing st1 of (l2, st2) \<Rightarrow> ([l1, l2], st2)))"
  by (simp add: fetch_pass_def apis_def split: prod.splits)

lemma three_pass:
  "fetch_pass no_repr timeout_then_three {||} =
     ([Caught TimeoutError, Processed],
      [plain_entry 1 ''A'', plain_entry 2 ''B'', plain_entry 3 ''C''],
      {|ascii ''3_C'', ascii ''2_B'', ascii ''1_A''|})"
  by (simp add: fetch_pass_two process_api_def timeout_then_three_def current_season_def
      currently_airing_def plain_entry_def run_simps)

lemma three_pass_again:
  "fetch_pass no_repr timeout_then_three {|ascii ''3_C'', ascii ''2_B'', ascii ''1_A''|} =
     ([Caught TimeoutError, Processed], [], {|ascii ''3_C'', ascii ''2_B'', ascii ''1_A''|})"
  by (simp add: fetch_pass_two process_api_def timeout_then_three_def current_season_def
      currently_airing_def plain_entry_def run_simps)

lemma fetch_recent_episodes_found:
  "found (fetch_recent_episodes R net now send_ok b) =
     fst (snd (fetch_pass R net (last_seen_titles b)))"
  by (simp add: fetch_recent_episodes_def Let_def split: prod.splits list.splits option.splits)

lemma fetch_recent_episodes_after:
  "bot_after (fetch_recent_episodes R net now send_ok b) =
     b\<lparr>last_seen_titles := snd (snd (fetch_pass R net (last_seen_titles b)))\<rparr>"
  by (simp add: fetch_recent_episodes_def Let_def split: prod.splits list.splits option.splits)

lemma fetch_recent_episodes_raised:
  "raised (fetch_recent_episodes R net now send_ok b) =
     (if fst (snd (fetch_pass R net (last_seen_titles b))) \<noteq> [] \<and>
         notification_channel b \<noteq> None \<and> \<not> send_ok
      then Some OtherError else None)"
  by (simp add: fetch_recent_episodes_def Let_def split: prod.splits list.splits option.splits)

section \<open>Facts about the notification\<close>

lemma synopsis_of_entry:
  "episode_info anime = Inr e \<Longrightarrow> synopsis_of anime = Inr (synopsis e)"
  by (auto simp: episode_info_def Let_def split: sum.splits)

lemma episode_info_fields:
  "episode_info anime = Inr e \<Longrightarrow>
     score e = dict_get anime ''score'' JNull \<and> episodes e = dict_get anime ''episodes'' JNull"
  by (auto simp: episode_info_def Let_def split: sum.splits)

lemma detail_value_lines:
  "detail_value R e =
     status_line R e @
     (if truthy (score e) then score_line R e else []) @
     (if truthy (episodes e) then episodes_line R e else []) @
     synopsis_line e @ link_line R e"
  by (simp add: detail_value_def Let_def)

lemma synopsis_line_in_detail:
  "sublist (synopsis_line e) (detail_value R e)"
proof -
  have "\<exists>ps ss. detail_value R e = ps @ synopsis_line e @ ss"
    unfolding detail_value_def Let_def by (simp only: append_assoc) blast
  then show ?thesis by (simp add: sublist_def)
qed

lemma score_line_in_detail:
  "truthy (score e) \<Longrightarrow> sublist (score_line R e) (detail_value R e)"
  unfolding detail_value_lines by simp

lemma episodes_line_in_detail:
  "truthy (episodes e) \<Longrightarrow> sublist (episodes_line R e) (detail_value R e)"
proof -
  assume t: "truthy (episodes e)"
  have "detail_value R e =
      (status_line R e @ (if truthy (score e) then score_line R e else [])) @
      episodes_line R e @ (synopsis_line e @ link_line R e)"
    unfolding detail_value_lines using t by simp
  then show ?thesis by (simp only: sublist_appendI)
qed

lemma add_field_fields: "embed_fields (add_field emb f) = embed_fields emb @ [f]"
  by (simp add: add_field_def)

lemma add_fields_loop:
  "embed_fields (foldl (\<lambda>emb anime. add_field emb (detail_field R anime)) e0 xs) =
     embed_fields e0 @ map (detail_field R) xs"
  by (induction xs arbitrary: e0) (simp_all add: add_field_fields)

lemma build_embed_fields:
  "embed_fields (build_embed R now first rest) =
     map (detail_field R) (take 5 (first # rest)) @
     (if 5 < length (first # rest) then [more_field (length (first # rest))] else [])"
proof -
  define xs where "xs = take 5 (first # rest)"
  have "embed_fields (build_embed R now first rest) =
     map (detail_field R) xs @
     (if 5 < length (first # rest) then [more_field (length (first # rest))] else [])"
    unfolding build_embed_def Let_def xs_def [symmetric]
    by (simp add: add_fields_loop add_field_fields del: length_Cons)
  then show ?thesis by (simp only: xs_def)
qed

lemma more_field_text:
  "5 < n \<Longrightarrow> field_value (more_field n) = digits (n - 5) @ ascii '' additional anime updates!''"
  by (simp add: more_field_def str_int_def nat_diff_distrib')

lemma detail_not_more: "detail_field R e \<noteq> more_field n"
proof
  assume "detail_field R e = more_field n"
  then have "field_name (detail_field R e) = field_name (more_field n)" by simp
  then show False by (simp add: detail_field_def more_field_def ascii_Cons)
qed

text \<open>What a full-detail block holds: lines 122 to 137, written out.\<close>

lemma detail_field_content:
  "field_name (detail_field R e) = [128250, 32] @ py_str R (title e) \<and>
   field_inline (detail_field R e) = False \<and>
   field_value (detail_field R e) =
     ascii ''**Status:** '' @ py_str R (status e) @ [10] @
     (if truthy (score e) then ascii ''**Score:** '' @ py_str R (score e) @ ascii ''/10'' @ [10]
      else []) @
     (if truthy (episodes e) then ascii ''**Episodes:** '' @ py_str R (episodes e) @ [10]
      else []) @
     ascii ''**Synopsis:** '' @ synopsis e @ [10] @
     ascii ''[View on MAL]('' @ py_str R (url e) @ ascii '')''"
  by (simp add: detail_field_def detail_value_lines status_line_def score_line_def
      episodes_line_def synopsis_line_def link_line_def)

lemma nth_map_front: "i < length xs \<Longrightarrow> (map f xs @ ys) ! i = f (xs ! i)"
  by (simp add: nth_append)

lemma nth_take_front: "i < length (take n xs) \<Longrightarrow> take n xs ! i = xs ! i"
  by simp

section \<open>Facts about the loop task\<close>

text \<open>The loop tasks that are not done are at most the task \<open>check_task\<close> holds.\<close>

lemma reachable_live:
  "reachable b \<Longrightarrow>
     live_tasks b |\<subseteq>| (case check_task b of None \<Rightarrow> {||} | Some t \<Rightarrow> {|t|})"
proof (induction rule: reachable.induct)
  case reach_initial
  then show ?case by (simp add: initial_def)
next
  case (reach_start b ch)
  show ?case
  proof (cases "task_running b")
    case True
    with reach_start show ?thesis by (simp add: start_def)
  next
    case False
    with reach_start.IH have "live_tasks b = {||}"
      by (cases "check_task b") (auto simp: task_running_def)
    with False show ?thesis by (simp add: start_def)
  qed
next
  case (reach_stop b)
  then show ?case by (cases "check_task b") (auto simp: stop_def)
next
  case (reach_setchannel b ch)
  then show ?case by (simp add: setchannel_def)
next
  case (reach_clear b)
  then show ?case by (simp add: clear_def Let_def)
next
  case (reach_pass b R net now send_ok)
  then show ?case by (simp add: fetch_recent_episodes_after)
next
  case (reach_task_ends b t)
  then show ?case by (cases "check_task b") (auto simp: task_ends_def)
qed

lemma live_count:
  assumes "live_tasks b |\<subseteq>| (case check_task b of None \<Rightarrow> {||} | Some t \<Rightarrow> {|t|})"
  shows "fcard (live_tasks b) \<le> 1 \<and> (task_running b \<longrightarrow> fcard (live_tasks b) = 1) \<and>
         (\<not> task_running b \<longrightarrow> live_tasks b = {||})"
proof (cases "check_task b")
  case None
  with assms show ?thesis by (simp add: task_running_def fcard_fempty)
next
  case (Some t)
  with assms have sub: "live_tasks b |\<subseteq>| {|t|}" by simp
  show ?thesis
  proof (cases "t |\<in>| live_tasks b")
    case True
    with sub have "live_tasks b = {|t|}" by auto
    with Some show ?thesis by (simp add: task_running_def fcard_finsert_if fcard_fempty)
  next
    case False
    with sub have "live_tasks b = {||}" by auto
    with Some False show ?thesis by (simp add: task_running_def fcard_fempty)
  qed
qed

section \<open>The claims\<close>

subsection \<open>Dedup idempotence\<close>

text \<open>
  C1. Run twice in succession on the same raw batch against the same Dedup Store, the
  Entry Differ returns an empty new-list the second time whenever it returned a
  non-empty one the first time; the second run ends as the first did and leaves the
  store as the first run left it.
\<close>

theorem dedup_idempotence:
  assumes "entry_differ R batch store = (x, new, store1)"
    and "new \<noteq> []"
  shows "fst (snd (entry_differ R batch store)) \<noteq> [] \<and>
         entry_differ R batch store1 = (x, [], store1)"
  using assms differ_again [OF assms(1)] by simp

theorem dedup_idempotence_witness:
  "entry_differ no_repr [raw_anime 1 ''A'' [], raw_anime 2 ''B'' []] {|ascii ''2_B''|} =
     (None,
      [\<lparr> title = JStr (ascii ''A''), title_jp = JStr (ascii ''A''), mal_id = JInt 1,
          score = JNull, status = JNull, aired_from = JNull, episodes = JNull,
          url = JNull, image_url = JStr [], synopsis = ascii ''No synopsis available'' \<rparr>],
      {|ascii ''1_A'', ascii ''2_B''|}) \<and>
   entry_differ no_repr [raw_anime 1 ''A'' [], raw_anime 2 ''B'' []]
     {|ascii ''1_A'', ascii ''2_B''|} = (None, [], {|ascii ''1_A'', ascii ''2_B''|})"
proof -
  have run: "entry_differ no_repr [raw_anime 1 ''A'' [], raw_anime 2 ''B'' []] {|ascii ''2_B''|} =
     (None,
      [\<lparr> title = JStr (ascii ''A''), title_jp = JStr (ascii ''A''), mal_id = JInt 1,
          score = JNull, status = JNull, aired_from = JNull, episodes = JNull,
          url = JNull, image_url = JStr [], synopsis = ascii ''No synopsis available'' \<rparr>],
      {|ascii ''1_A'', ascii ''2_B''|})"
    by (simp add: run_simps)
  from dedup_idempotence [OF run] run show ?thesis by simp
qed

subsection \<open>Duplicates within a batch\<close>

text \<open>
  C2, as the code has it. An accepted entry's identity is in the Dedup Store as soon as
  the loop body has run for it. So a new-list never holds two entries of one identity.
  It holds none for an identity that was in the store before the run. When the run
  raises no exception, it holds exactly one for every identity of the batch that was not
  in the store before the run, however often the batch repeats it.
\<close>

theorem intra_batch_dedup:
  assumes "entry_differ R batch store = (x, new, store')"
  shows "(\<forall>a n s n' s'. process_anime R a (n, s) = Inr (n', s') \<longrightarrow>
            (\<exists>u. identity_of_raw R a = Some u \<and> u |\<in>| s')) \<and>
         (\<forall>u. length (filter (\<lambda>e. identity R e = u) new) \<le> 1) \<and>
         (\<forall>u. u |\<in>| store \<longrightarrow> filter (\<lambda>e. identity R e = u) new = []) \<and>
         (x = None \<longrightarrow>
            (\<forall>a \<in> set batch. \<forall>u. identity_of_raw R a = Some u \<and> u |\<notin>| store \<longrightarrow>
               length (filter (\<lambda>e. identity R e = u) new) = 1))"
proof -
  note fresh = differ_new_fresh [OF assms]
  have one: "length (filter (\<lambda>e. identity R e = u) new) \<le> 1" for u
    using fresh count_distinct_le [of "identity R" new u] by simp
  have none: "filter (\<lambda>e. identity R e = u) new = []" if "u |\<in>| store" for u
    using fresh that by (auto simp: filter_empty_conv)
  have exact: "length (filter (\<lambda>e. identity R e = u) new) = 1"
    if "x = None" "a \<in> set batch" "identity_of_raw R a = Some u" "u |\<notin>| store" for a u
  proof -
    from assms that(1) have run: "entry_differ R batch store = (None, new, store')" by simp
    from differ_covers [OF run that(2)] that(3) have "u |\<in>| store'" by auto
    with differ_store [OF assms] that(4) have "u \<in> identity R ` set new"
      by (auto simp: fset_of_list.rep_eq)
    from count_member_ge [OF this] one [of u] show ?thesis by simp
  qed
  have step: "\<forall>a n s n' s'. process_anime R a (n, s) = Inr (n', s') \<longrightarrow>
            (\<exists>u. identity_of_raw R a = Some u \<and> u |\<in>| s')"
    using process_anime_inserts by blast
  have c2: "\<forall>u. length (filter (\<lambda>e. identity R e = u) new) \<le> 1"
    using one by blast
  have c3: "\<forall>u. u |\<in>| store \<longrightarrow> filter (\<lambda>e. identity R e = u) new = []"
    using none by blast
  have c4: "x = None \<longrightarrow>
            (\<forall>a \<in> set batch. \<forall>u. identity_of_raw R a = Some u \<and> u |\<notin>| store \<longrightarrow>
               length (filter (\<lambda>e. identity R e = u) new) = 1)"
    using exact by blast
  from step c2 c3 c4 show ?thesis by (intro conjI)
qed

theorem intra_batch_dedup_witness:
  "entry_differ no_repr
     [raw_anime 1 ''A'' [], raw_anime 2 ''B'' [], raw_anime 1 ''A'' [(ascii ''score'', JInt 9)]] {||} =
     (None,
      [\<lparr> title = JStr (ascii ''A''), title_jp = JStr (ascii ''A''), mal_id = JInt 1,
          score = JNull, status = JNull, aired_from = JNull, episodes = JNull,
          url = JNull, image_url = JStr [], synopsis = ascii ''No synopsis available'' \<rparr>,
       \<lparr> title = JStr (ascii ''B''), title_jp = JStr (ascii ''B''), mal_id = JInt 2,
          score = JNull, status = JNull, aired_from = JNull, episodes = JNull,
          url = JNull, image_url = JStr [], synopsis = ascii ''No synopsis available'' \<rparr>],
      {|ascii ''2_B'', ascii ''1_A''|}) \<and>
   identity_of_raw no_repr (raw_anime 1 ''A'' [(ascii ''score'', JInt 9)]) = Some (ascii ''1_A'') \<and>
   identity_of_raw no_repr (raw_anime 1 ''A'' []) = Some (ascii ''1_A'') \<and>
   length (filter (\<lambda>e. identity no_repr e = ascii ''1_A'')
     (fst (snd (entry_differ no_repr
        [raw_anime 1 ''A'' [], raw_anime 2 ''B'' [], raw_anime 1 ''A'' [(ascii ''score'', JInt 9)]] {||})))) = 1"
proof -
  let ?b = "[raw_anime 1 ''A'' [], raw_anime 2 ''B'' [], raw_anime 1 ''A'' [(ascii ''score'', JInt 9)]]"
  have run: "entry_differ no_repr ?b {||} =
     (None,
      [\<lparr> title = JStr (ascii ''A''), title_jp = JStr (ascii ''A''), mal_id = JInt 1,
          score = JNull, status = JNull, aired_from = JNull, episodes = JNull,
          url = JNull, image_url = JStr [], synopsis = ascii ''No synopsis available'' \<rparr>,
       \<lparr> title = JStr (ascii ''B''), title_jp = JStr (ascii ''B''), mal_id = JInt 2,
          score = JNull, status = JNull, aired_from = JNull, episodes = JNull,
          url = JNull, image_url = JStr [], synopsis = ascii ''No synopsis available'' \<rparr>],
      {|ascii ''2_B'', ascii ''1_A''|})"
    by (simp add: run_simps)
  have id1: "identity_of_raw no_repr (raw_anime 1 ''A'' [(ascii ''score'', JInt 9)]) = Some (ascii ''1_A'')"
    by (simp add: identity_of_raw_def raw_identity_def run_simps)
  have id2: "identity_of_raw no_repr (raw_anime 1 ''A'' []) = Some (ascii ''1_A'')"
    by (simp add: identity_of_raw_def raw_identity_def run_simps)
  have mem: "raw_anime 1 ''A'' [(ascii ''score'', JInt 9)] \<in> set ?b" by simp
  have fresh: "ascii ''1_A'' |\<notin>| {||}" by simp
  from intra_batch_dedup [OF run] mem id1 fresh
  have "length (filter (\<lambda>e. identity no_repr e = ascii ''1_A'')
     [\<lparr> title = JStr (ascii ''A''), title_jp = JStr (ascii ''A''), mal_id = JInt 1,
          score = JNull, status = JNull, aired_from = JNull, episodes = JNull,
          url = JNull, image_url = JStr [], synopsis = ascii ''No synopsis available'' \<rparr>,
       \<lparr> title = JStr (ascii ''B''), title_jp = JStr (ascii ''B''), mal_id = JInt 2,
          score = JNull, status = JNull, aired_from = JNull, episodes = JNull,
          url = JNull, image_url = JStr [], synopsis = ascii ''No synopsis available'' \<rparr>]) = 1"
    by blast
  with run id1 id2 show ?thesis by simp
qed

text \<open>
  C2, as stated, fails when the identity is already in the Dedup Store: the batch holds
  two raw entries of the identity \<open>1_A\<close>, and the new-list holds no entry at all.
\<close>

theorem intra_batch_dedup_counterexample:
  "identity_of_raw no_repr (raw_anime 1 ''A'' []) = Some (ascii ''1_A'') \<and>
   entry_differ no_repr [raw_anime 1 ''A'' [], raw_anime 1 ''A'' []] {|ascii ''1_A''|} =
     (None, [], {|ascii ''1_A''|}) \<and>
   length (filter (\<lambda>e. identity no_repr e = ascii ''1_A'')
     (fst (snd (entry_differ no_repr [raw_anime 1 ''A'' [], raw_anime 1 ''A'' []]
        {|ascii ''1_A''|})))) \<noteq> 1"
  by (simp add: identity_of_raw_def raw_identity_def run_simps)

subsection \<open>The store and the sink\<close>

text \<open>
  C3. Whatever the Output Sink Reference holds and whether the send succeeds or raises,
  a pass leaves the same Dedup Store and finds the same new-list: the store the fetch
  pass computed, which holds what it held before and the identity of every entry of
  the new-list. No later pass, from this store or from one that has grown since, finds
  an entry with one of these identities again.
\<close>

theorem seen_regardless_of_sink:
  assumes "r = fetch_recent_episodes R net now send_ok (b\<lparr>notification_channel := ch\<rparr>)"
  shows "last_seen_titles (bot_after r) = snd (snd (fetch_pass R net (last_seen_titles b))) \<and>
         found r = fst (snd (fetch_pass R net (last_seen_titles b))) \<and>
         last_seen_titles b |\<subseteq>| last_seen_titles (bot_after r) \<and>
         (\<forall>e \<in> set (found r). identity R e |\<in>| last_seen_titles (bot_after r)) \<and>
         (\<forall>b2 net2 now2 ok2. last_seen_titles (bot_after r) |\<subseteq>| last_seen_titles b2 \<longrightarrow>
            (\<forall>e2 \<in> set (found (fetch_recent_episodes R net2 now2 ok2 b2)).
               identity R e2 \<notin> identity R ` set (found r)))"
proof -
  obtain ls new s' where p: "fetch_pass R net (last_seen_titles b) = (ls, new, s')"
    by (cases "fetch_pass R net (last_seen_titles b)") auto
  have c1: "last_seen_titles (bot_after r) = s'"
    unfolding assms fetch_recent_episodes_after by (simp add: p)
  have c2: "found r = new"
    unfolding assms fetch_recent_episodes_found by (simp add: p)
  note adds = fetch_pass_adds [OF p]
  from adds have st: "s' = last_seen_titles b |\<union>| fset_of_list (map (identity R) new)"
    by (rule conjunct1)
  have c3: "last_seen_titles b |\<subseteq>| s'" unfolding st by simp
  have c4: "\<forall>e \<in> set new. identity R e |\<in>| s'"
    unfolding st by (simp add: fset_of_list.rep_eq)
  have c5: "identity R e2 \<notin> identity R ` set new"
    if sub: "s' |\<subseteq>| last_seen_titles b2"
      and e2: "e2 \<in> set (found (fetch_recent_episodes R net2 now2 ok2 b2))"
    for b2 net2 now2 ok2 e2
  proof
    assume "identity R e2 \<in> identity R ` set new"
    then obtain e where e: "identity R e2 = identity R e" "e \<in> set new" by (rule imageE)
    from c4 e have "identity R e2 |\<in>| s'" by simp
    with sub have seen: "identity R e2 |\<in>| last_seen_titles b2" by blast
    obtain ls2 new2 s2 where p2: "fetch_pass R net2 (last_seen_titles b2) = (ls2, new2, s2)"
      by (cases "fetch_pass R net2 (last_seen_titles b2)") auto
    from e2 have "e2 \<in> set new2" unfolding fetch_recent_episodes_found by (simp add: p2)
    with fetch_pass_adds [OF p2] have "identity R e2 |\<notin>| last_seen_titles b2" by blast
    with seen show False by simp
  qed
  have d1: "last_seen_titles (bot_after r) = snd (snd (fetch_pass R net (last_seen_titles b)))"
    using c1 p by simp
  have d2: "found r = fst (snd (fetch_pass R net (last_seen_titles b)))"
    using c2 p by simp
  have d3: "last_seen_titles b |\<subseteq>| last_seen_titles (bot_after r)"
    using c1 c3 by simp
  have d4: "\<forall>e \<in> set (found r). identity R e |\<in>| last_seen_titles (bot_after r)"
    using c1 c2 c4 by simp
  have d5: "\<forall>b2 net2 now2 ok2. last_seen_titles (bot_after r) |\<subseteq>| last_seen_titles b2 \<longrightarrow>
            (\<forall>e2 \<in> set (found (fetch_recent_episodes R net2 now2 ok2 b2)).
               identity R e2 \<notin> identity R ` set (found r))"
    unfolding c1 c2 using c5 by blast
  from d1 d2 d3 d4 d5 show ?thesis by (intro conjI)
qed

theorem seen_regardless_of_sink_witness:
  "last_seen_titles (bot_after (fetch_recent_episodes no_repr timeout_then_three 0 False
      (initial\<lparr>notification_channel := Some 5\<rparr>))) =
     {|ascii ''3_C'', ascii ''2_B'', ascii ''1_A''|} \<and>
   raised (fetch_recent_episodes no_repr timeout_then_three 0 False
      (initial\<lparr>notification_channel := Some 5\<rparr>)) = Some OtherError \<and>
   last_seen_titles (bot_after (fetch_recent_episodes no_repr timeout_then_three 0 True
      (initial\<lparr>notification_channel := None\<rparr>))) =
     {|ascii ''3_C'', ascii ''2_B'', ascii ''1_A''|} \<and>
   sent (fetch_recent_episodes no_repr timeout_then_three 0 True
      (initial\<lparr>notification_channel := None\<rparr>)) = [] \<and>
   found (fetch_recent_episodes no_repr timeout_then_three 0 False
      (initial\<lparr>notification_channel := Some 5\<rparr>)) =
     [plain_entry 1 ''A'', plain_entry 2 ''B'', plain_entry 3 ''C''] \<and>
   found (fetch_recent_episodes no_repr timeout_then_three 1 True
      (bot_after (fetch_recent_episodes no_repr timeout_then_three 0 False
         (initial\<lparr>notification_channel := Some 5\<rparr>)))) = []"
proof -
  let ?r1 = "fetch_recent_episodes no_repr timeout_then_three 0 False
      (initial\<lparr>notification_channel := Some 5\<rparr>)"
  let ?r2 = "fetch_recent_episodes no_repr timeout_then_three 0 True
      (initial\<lparr>notification_channel := None\<rparr>)"
  have i: "last_seen_titles initial = {||}" by (simp add: initial_def)
  from seen_regardless_of_sink [where R = no_repr and net = timeout_then_three and now = 0
      and send_ok = False and b = initial and ch = "Some 5", OF refl]
  have a: "last_seen_titles (bot_after ?r1) = {|ascii ''3_C'', ascii ''2_B'', ascii ''1_A''|}"
    and f: "found ?r1 = [plain_entry 1 ''A'', plain_entry 2 ''B'', plain_entry 3 ''C'']"
    by (simp_all add: i three_pass)
  from seen_regardless_of_sink [where R = no_repr and net = timeout_then_three and now = 0
      and send_ok = True and b = initial and ch = None, OF refl]
  have b: "last_seen_titles (bot_after ?r2) = {|ascii ''3_C'', ascii ''2_B'', ascii ''1_A''|}"
    by (simp add: i three_pass)
  have c: "raised ?r1 = Some OtherError"
    by (simp add: fetch_recent_episodes_raised i three_pass)
  have d: "sent ?r2 = []"
    by (simp add: fetch_recent_episodes_def i three_pass)
  have e: "found (fetch_recent_episodes no_repr timeout_then_three 1 True (bot_after ?r1)) = []"
    by (simp add: fetch_recent_episodes_found a three_pass_again)
  from a b c d e f show ?thesis by simp
qed

subsection \<open>Single-flight start\<close>

text \<open>
  C4. In every state the bot reaches, at most one loop task is not done. After
  \<^verbatim>\<open>start\<close> exactly one is, and it is the one \<^verbatim>\<open>check_task\<close> holds; a second \<^verbatim>\<open>start\<close> right
  after it answers that the checker is already running and changes nothing, so no
  second task is made. The same holds for any \<^verbatim>\<open>start\<close> while the task is running.
\<close>

theorem single_flight_start:
  assumes "reachable b"
  shows "fcard (live_tasks b) \<le> 1 \<and>
         fcard (live_tasks (snd (start ch b))) = 1 \<and>
         task_running (snd (start ch b)) \<and>
         start ch2 (snd (start ch b)) = (AlreadyRunning, snd (start ch b)) \<and>
         (task_running b \<longrightarrow> start ch b = (AlreadyRunning, b))"
proof -
  note inv = live_count [OF reachable_live [OF assms]]
  have c1: "fcard (live_tasks b) \<le> 1" using inv by blast
  have r1: "reachable (snd (start ch b))" using assms by (rule reach_start)
  have c3: "task_running (snd (start ch b))"
    by (cases "task_running b") (simp_all add: start_def, simp add: task_running_def)
  have c2: "fcard (live_tasks (snd (start ch b))) = 1"
    using live_count [OF reachable_live [OF r1]] c3 by blast
  have c4: "start ch2 (snd (start ch b)) = (AlreadyRunning, snd (start ch b))"
    using c3 by (simp add: start_def [of ch2])
  have c5: "task_running b \<longrightarrow> start ch b = (AlreadyRunning, b)"
    by (simp add: start_def)
  from c1 c2 c3 c4 c5 show ?thesis by (intro conjI)
qed

theorem single_flight_start_witness:
  "reachable (snd (stop (snd (start 1 initial)))) \<and>
   fcard (live_tasks (snd (stop (snd (start 1 initial))))) \<le> 1 \<and>
   fcard (live_tasks (snd (start 2 (snd (stop (snd (start 1 initial))))))) = 1 \<and>
   start 3 (snd (start 2 (snd (stop (snd (start 1 initial)))))) =
     (AlreadyRunning,
      \<lparr> check_task = Some 1, last_seen_titles = {||}, notification_channel = Some 2,
        live_tasks = {|1|}, next_task = 2 \<rparr>) \<and>
   task_running (snd (start 1 initial)) \<and>
   start 4 (snd (start 1 initial)) = (AlreadyRunning, snd (start 1 initial))"
proof -
  let ?b = "snd (stop (snd (start 1 initial)))"
  have r: "reachable ?b"
    by (intro reach_stop reach_start reach_initial)
  have v: "snd (start 2 ?b) =
      \<lparr> check_task = Some 1, last_seen_titles = {||}, notification_channel = Some 2,
        live_tasks = {|1|}, next_task = 2 \<rparr>"
    by (simp add: start_def stop_def initial_def task_running_def)
  have r1: "reachable (snd (start 1 initial))"
    by (intro reach_start reach_initial)
  have run1: "task_running (snd (start 1 initial))"
    by (simp add: start_def initial_def task_running_def)
  from single_flight_start [OF r, of 2 3] v
  have a: "fcard (live_tasks ?b) \<le> 1" "fcard (live_tasks (snd (start 2 ?b))) = 1"
    "start 3 (snd (start 2 ?b)) =
     (AlreadyRunning,
      \<lparr> check_task = Some 1, last_seen_titles = {||}, notification_channel = Some 2,
        live_tasks = {|1|}, next_task = 2 \<rparr>)"
    by simp_all
  from single_flight_start [OF r1, of 4] run1
  have b: "start 4 (snd (start 1 initial)) = (AlreadyRunning, snd (start 1 initial))" by blast
  from r a run1 b show ?thesis by (intro conjI)
qed

subsection \<open>Clearing the cache\<close>

text \<open>
  C5, as the code has it. The clear command reports the number of identities the Dedup
  Store held and leaves it empty. The next differ run over a batch of well-formed raw
  entries (each one a dict from which the entry is built without an exception) then
  raises no exception and returns every raw entry of the batch as new: each has an entry
  of its identity in the new-list, and when the identities of the batch are pairwise
  distinct the new-list is the whole batch, entry by entry, in order.
\<close>

theorem clear_resets_exposure:
  assumes "\<forall>a \<in> set batch. entry_of a \<noteq> None"
  shows "fst (clear b) = Cleared (fcard (last_seen_titles b)) \<and>
         snd (clear b) = b\<lparr>last_seen_titles := {||}\<rparr> \<and>
         fcard (last_seen_titles (snd (clear b))) = 0 \<and>
         fst (entry_differ R batch (last_seen_titles (snd (clear b)))) = None \<and>
         (\<forall>a \<in> set batch. \<exists>e \<in> set (fst (snd (entry_differ R batch (last_seen_titles (snd (clear b)))))).
            identity_of_raw R a = Some (identity R e)) \<and>
         (distinct (map (identity_of_raw R) batch) \<longrightarrow>
            map Some (fst (snd (entry_differ R batch (last_seen_titles (snd (clear b)))))) =
            map entry_of batch)"
proof -
  have c: "clear b = (Cleared (fcard (last_seen_titles b)), b\<lparr>last_seen_titles := {||}\<rparr>)"
    by (simp add: clear_def)
  have st: "last_seen_titles (snd (clear b)) = {||}" by (simp add: c)
  obtain x new s' where run: "entry_differ R batch {||} = (x, new, s')"
    by (cases "entry_differ R batch {||}") auto
  from differ_no_exception [OF assms, of R "{||}"] run have x: "x = None" by simp
  have cover: "\<exists>e \<in> set new. identity_of_raw R a = Some (identity R e)" if "a \<in> set batch" for a
  proof -
    from differ_covers [OF run [unfolded x] that]
    obtain u where u: "identity_of_raw R a = Some u" "u |\<in>| s'" by blast
    from differ_store [OF run] u(2) have "u \<in> identity R ` set new"
      by (auto simp: fset_of_list.rep_eq)
    with u(1) show ?thesis by auto
  qed
  have full: "map Some new = map entry_of batch" if "distinct (map (identity_of_raw R) batch)"
    using differ_full [OF assms that, of "{||}"] run by simp
  from c st run x cover full show ?thesis by simp
qed

theorem clear_resets_exposure_witness:
  "entry_of (raw_anime 1 ''A'' []) \<noteq> None \<and>
   entry_of (raw_anime 2 ''B'' []) \<noteq> None \<and>
   fst (clear (initial\<lparr>last_seen_titles :=
      {|ascii ''1_A'', ascii ''2_B'', ascii ''3_C'', ascii ''4_D'', ascii ''5_E'',
        ascii ''6_F'', ascii ''7_G''|}\<rparr>)) = Cleared 7 \<and>
   fcard (last_seen_titles (snd (clear (initial\<lparr>last_seen_titles :=
      {|ascii ''1_A'', ascii ''2_B'', ascii ''3_C'', ascii ''4_D'', ascii ''5_E'',
        ascii ''6_F'', ascii ''7_G''|}\<rparr>)))) = 0 \<and>
   fst (snd (entry_differ no_repr [raw_anime 1 ''A'' [], raw_anime 2 ''B'' []]
      {|ascii ''1_A'', ascii ''2_B'', ascii ''3_C'', ascii ''4_D'', ascii ''5_E'',
        ascii ''6_F'', ascii ''7_G''|})) = [] \<and>
   map Some (fst (snd (entry_differ no_repr [raw_anime 1 ''A'' [], raw_anime 2 ''B'' []]
      (last_seen_titles (snd (clear (initial\<lparr>last_seen_titles :=
        {|ascii ''1_A'', ascii ''2_B'', ascii ''3_C'', ascii ''4_D'', ascii ''5_E'',
          ascii ''6_F'', ascii ''7_G''|}\<rparr>))))))) =
     [entry_of (raw_anime 1 ''A'' []), entry_of (raw_anime 2 ''B'' [])]"
proof -
  let ?s7 = "{|ascii ''1_A'', ascii ''2_B'', ascii ''3_C'', ascii ''4_D'', ascii ''5_E'',
        ascii ''6_F'', ascii ''7_G''|}"
  let ?b = "initial\<lparr>last_seen_titles := ?s7\<rparr>"
  let ?batch = "[raw_anime 1 ''A'' [], raw_anime 2 ''B'' []]"
  have w1: "entry_of (raw_anime 1 ''A'' []) \<noteq> None"
    by (simp add: entry_of_def run_simps)
  have w2: "entry_of (raw_anime 2 ''B'' []) \<noteq> None"
    by (simp add: entry_of_def run_simps)
  have wf: "\<forall>a \<in> set ?batch. entry_of a \<noteq> None" using w1 w2 by simp
  have seven: "fcard ?s7 = 7"
    by (simp add: fcard_finsert_if ascii_Nil ascii_Cons)
  have dist: "distinct (map (identity_of_raw no_repr) ?batch)"
    by (simp add: identity_of_raw_def raw_identity_def run_simps)
  have before: "fst (snd (entry_differ no_repr ?batch ?s7)) = []"
    by (simp add: run_simps)
  note inst = clear_resets_exposure [OF wf, of ?b no_repr]
  from inst seven have c1: "fst (clear ?b) = Cleared 7" by simp
  from inst have c2: "fcard (last_seen_titles (snd (clear ?b))) = 0" by blast
  from inst dist have c3: "map Some (fst (snd (entry_differ no_repr ?batch
      (last_seen_titles (snd (clear ?b)))))) = map entry_of ?batch" by blast
  from w1 w2 c1 c2 before c3 show ?thesis by simp
qed

text \<open>
  C5, as stated, fails on a previously-seen batch that holds a raw entry on which
  line 88 raises. Before the clear both identities are in the store, so line 81 skips
  both raw entries and nothing is new. After the clear the first raw entry is no longer
  skipped, line 88 raises on it and the loop is left: the new-list is empty, and the
  second raw entry, which is well formed, is not returned as new either.
\<close>

theorem clear_resets_exposure_counterexample:
  "entry_differ no_repr [aired_null, raw_anime 2 ''B'' []] {|ascii ''9_X'', ascii ''2_B''|} =
     (None, [], {|ascii ''9_X'', ascii ''2_B''|}) \<and>
   identity_of_raw no_repr aired_null = Some (ascii ''9_X'') \<and>
   identity_of_raw no_repr (raw_anime 2 ''B'' []) = Some (ascii ''2_B'') \<and>
   entry_of (raw_anime 2 ''B'' []) = Some (plain_entry 2 ''B'') \<and>
   clear (initial\<lparr>last_seen_titles := {|ascii ''9_X'', ascii ''2_B''|}\<rparr>) =
     (Cleared 2, initial\<lparr>last_seen_titles := {||}\<rparr>) \<and>
   entry_differ no_repr [aired_null, raw_anime 2 ''B'' []]
     (last_seen_titles (snd (clear (initial\<lparr>last_seen_titles := {|ascii ''9_X'', ascii ''2_B''|}\<rparr>)))) =
     (Some OtherError, [], {||})"
proof -
  have a: "entry_differ no_repr [aired_null, raw_anime 2 ''B'' []] {|ascii ''9_X'', ascii ''2_B''|} =
     (None, [], {|ascii ''9_X'', ascii ''2_B''|})"
    by (simp add: aired_null_def run_simps)
  have b: "identity_of_raw no_repr aired_null = Some (ascii ''9_X'')"
    by (simp add: aired_null_def identity_of_raw_def raw_identity_def run_simps)
  have c: "identity_of_raw no_repr (raw_anime 2 ''B'' []) = Some (ascii ''2_B'')"
    by (simp add: identity_of_raw_def raw_identity_def run_simps)
  have d: "entry_of (raw_anime 2 ''B'' []) = Some (plain_entry 2 ''B'')"
    by (simp add: entry_of_def plain_entry_def run_simps)
  have e: "clear (initial\<lparr>last_seen_titles := {|ascii ''9_X'', ascii ''2_B''|}\<rparr>) =
     (Cleared 2, initial\<lparr>last_seen_titles := {||}\<rparr>)"
    by (simp add: clear_def fcard_finsert_if fcard_fempty ascii_Nil ascii_Cons)
  have f: "entry_differ no_repr [aired_null, raw_anime 2 ''B'' []] {||} = (Some OtherError, [], {||})"
    by (simp add: aired_null_def run_simps)
  from a b c d e f show ?thesis by simp
qed

subsection \<open>Fault isolation\<close>

text \<open>
  C6. An endpoint that fails (the request raises, the status is not 200, or reading the
  body raises) leaves the new-list and the store as they were, and the pass goes on:
  every endpoint gets its line of the log. When one of the two endpoints fails, the pass
  returns exactly what the other endpoint alone gives, and an endpoint that answers
  with a list gives what the differ returns on the first 10 entries of the list.
\<close>

theorem fault_isolation:
  assumes "endpoint_failed (net a)"
  shows "snd (process_api R net a st) = st \<and>
         fst (process_api R net a st) \<noteq> Processed \<and>
         length (fst (fetch_pass R net store)) = length apis \<and>
         (a = current_season \<longrightarrow>
            snd (fetch_pass R net store) = snd (process_api R net currently_airing ([], store))) \<and>
         (a = currently_airing \<longrightarrow>
            snd (fetch_pass R net store) = snd (process_api R net current_season ([], store))) \<and>
         (\<forall>b d xs. net b = Response 200 (Inr (JObj d)) \<and>
              dict_get d (api_key b) (JList []) = JList xs \<longrightarrow>
            snd (process_api R net b ([], store)) = snd (entry_differ R (take 10 xs) store))"
proof -
  have f: "snd (process_api R net a st) = st \<and> fst (process_api R net a st) \<noteq> Processed"
    using assms by (rule process_api_failed)
  have c1: "snd (process_api R net a st) = st" by (rule conjunct1 [OF f])
  have c2: "fst (process_api R net a st) \<noteq> Processed" by (rule conjunct2 [OF f])
  have c3: "length (fst (fetch_pass R net store)) = length apis"
    by (simp add: fetch_pass_def for_apis_logs)
  have c4: "snd (fetch_pass R net store) = snd (process_api R net currently_airing ([], store))"
    if "a = current_season"
  proof -
    from that assms have "endpoint_failed (net current_season)" by simp
    then have "snd (process_api R net current_season ([], store)) = ([], store) \<and>
        fst (process_api R net current_season ([], store)) \<noteq> Processed"
      by (rule process_api_failed)
    then have "snd (process_api R net current_season ([], store)) = ([], store)" by blast
    then show ?thesis by (simp add: fetch_pass_two split_beta)
  qed
  have c5: "snd (fetch_pass R net store) = snd (process_api R net current_season ([], store))"
    if "a = currently_airing"
  proof -
    from that assms have "endpoint_failed (net currently_airing)" by simp
    then have "snd (process_api R net currently_airing (snd (process_api R net current_season ([], store)))) =
        snd (process_api R net current_season ([], store)) \<and>
        fst (process_api R net currently_airing (snd (process_api R net current_season ([], store)))) \<noteq> Processed"
      by (rule process_api_failed)
    then show ?thesis by (simp add: fetch_pass_two split_beta)
  qed
  have c6: "snd (process_api R net b ([], store)) = snd (entry_differ R (take 10 xs) store)"
    if "net b = Response 200 (Inr (JObj d))" "dict_get d (api_key b) (JList []) = JList xs"
    for b d xs
    using process_api_list [of net b d xs R "([], store)"] that by (simp add: entry_differ_def)
  from c1 c2 c3 c4 c5 c6 show ?thesis by blast
qed

theorem fault_isolation_witness:
  "endpoint_failed (timeout_then_three current_season) \<and>
   fetch_pass no_repr timeout_then_three {||} =
     ([Caught TimeoutError, Processed],
      [plain_entry 1 ''A'', plain_entry 2 ''B'', plain_entry 3 ''C''],
      {|ascii ''3_C'', ascii ''2_B'', ascii ''1_A''|})"
proof -
  have failed: "endpoint_failed (timeout_then_three current_season)"
    by (simp add: endpoint_failed_def timeout_then_three_def current_season_def)
  have logs: "fst (fetch_pass no_repr timeout_then_three {||}) = [Caught TimeoutError, Processed]"
    by (simp add: fetch_pass_two process_api_def timeout_then_three_def current_season_def
        currently_airing_def plain_entry_def run_simps)
  have other: "snd (process_api no_repr timeout_then_three currently_airing ([], {||})) =
      ([plain_entry 1 ''A'', plain_entry 2 ''B'', plain_entry 3 ''C''],
       {|ascii ''3_C'', ascii ''2_B'', ascii ''1_A''|})"
    by (simp add: process_api_def timeout_then_three_def
        currently_airing_def plain_entry_def run_simps)
  from fault_isolation [of timeout_then_three current_season no_repr "([], {||})" "{||}"]
    failed other
  have "snd (fetch_pass no_repr timeout_then_three {||}) =
      ([plain_entry 1 ''A'', plain_entry 2 ''B'', plain_entry 3 ''C''],
       {|ascii ''3_C'', ascii ''2_B'', ascii ''1_A''|})" by simp
  with failed logs show ?thesis
    by (cases "fetch_pass no_repr timeout_then_three {||}") simp
qed

subsection \<open>Truncation of a long synopsis\<close>

text \<open>
  C7. A raw entry whose synopsis is a string of 500 characters gets as its summary the
  first 200 characters of that synopsis followed by the marker \<open>...\<close>: this is the value
  of line 92, the summary of the entry built from the raw entry, and the text that the
  entry's block of the notification shows after \<open>**Synopsis:** \<close>.
\<close>

theorem truncation_500:
  assumes "map_of anime (ascii ''synopsis'') = Some (JStr s)"
    and "length s = 500"
  shows "synopsis_of anime = Inr (take 200 s @ ascii ''...'') \<and>
         length (take 200 s) = 200 \<and>
         (\<forall>e. episode_info anime = Inr e \<longrightarrow>
            synopsis e = take 200 s @ ascii ''...'' \<and>
            sublist (ascii ''**Synopsis:** '' @ take 200 s @ ascii ''...'' @ [10])
              (detail_value R e))"
proof -
  from assms have ne: "s \<noteq> []" by auto
  with assms(1) have syn: "synopsis_of anime = Inr (take 200 s @ ascii ''...'')"
    by (simp add: synopsis_of_def dict_get_def)
  have len: "length (take 200 s) = 200" using assms(2) by simp
  have "synopsis e = take 200 s @ ascii ''...'' \<and>
        sublist (ascii ''**Synopsis:** '' @ take 200 s @ ascii ''...'' @ [10]) (detail_value R e)"
    if e: "episode_info anime = Inr e" for e
  proof -
    from synopsis_of_entry [OF e] syn have s: "synopsis e = take 200 s @ ascii ''...''" by simp
    from synopsis_line_in_detail [of e R] s show ?thesis
      by (simp add: synopsis_line_def)
  qed
  with syn len show ?thesis by blast
qed

theorem truncation_500_witness:
  "map_of [(ascii ''mal_id'', JInt 7), (ascii ''synopsis'', JStr (replicate 500 97))]
     (ascii ''synopsis'') = Some (JStr (replicate 500 97)) \<and>
   length (replicate 500 (97::nat)) = 500 \<and>
   synopsis_of [(ascii ''mal_id'', JInt 7), (ascii ''synopsis'', JStr (replicate 500 97))] =
     Inr (replicate 200 97 @ ascii ''...'') \<and>
   (\<exists>e. episode_info [(ascii ''mal_id'', JInt 7), (ascii ''synopsis'', JStr (replicate 500 97))] = Inr e \<and>
        synopsis e = replicate 200 97 @ ascii ''...'' \<and>
        sublist (ascii ''**Synopsis:** '' @ replicate 200 97 @ ascii ''...'' @ [10])
          (detail_value no_repr e))"
proof -
  let ?a = "[(ascii ''mal_id'', JInt 7), (ascii ''synopsis'', JStr (replicate 500 97))]"
  have h1: "map_of ?a (ascii ''synopsis'') = Some (JStr (replicate 500 97))"
    by (simp add: ascii_Nil ascii_Cons)
  have h2: "length (replicate 500 (97::nat)) = 500" by simp
  have tk: "take 200 (replicate 500 (97::nat)) = replicate 200 97" by simp
  have "\<exists>e. episode_info ?a = Inr e"
    by (simp add: episode_info_def aired_from_of_def image_of_def synopsis_of_def dict_get_def
        Let_def ascii_Nil ascii_Cons)
  then obtain e where e: "episode_info ?a = Inr e" ..
  from truncation_500 [OF h1 h2, of no_repr] e h1 h2 show ?thesis
    unfolding tk by blast
qed

subsection \<open>The cap of the notification\<close>

text \<open>
  C8. The fields of the notification are the full-detail blocks of the first 5 entries of
  the new-list, in order, followed by one more field when the new-list holds more than
  5 entries and by nothing otherwise. A full-detail block is named by the entry's title
  and holds its status, its score and its episode count when they are true, its summary
  and its link. The further field is no full-detail block; its text is the number of
  remaining entries followed by \<open> additional anime updates!\<close>.
\<close>

theorem notification_cap:
  "embed_fields (build_embed R now first rest) =
     map (detail_field R) (take 5 (first # rest)) @
     (if 5 < length (first # rest) then [more_field (length (first # rest))] else []) \<and>
   (5 < length (first # rest) \<longrightarrow>
      length (embed_fields (build_embed R now first rest)) = 6 \<and>
      field_value (more_field (length (first # rest))) =
        digits (length (first # rest) - 5) @ ascii '' additional anime updates!'') \<and>
   (length (first # rest) \<le> 5 \<longrightarrow>
      embed_fields (build_embed R now first rest) = map (detail_field R) (first # rest)) \<and>
   (\<forall>e n. detail_field R e \<noteq> more_field n) \<and>
   (\<forall>e. field_name (detail_field R e) = [128250, 32] @ py_str R (title e) \<and>
        field_inline (detail_field R e) = False \<and>
        field_value (detail_field R e) =
          ascii ''**Status:** '' @ py_str R (status e) @ [10] @
          (if truthy (score e) then ascii ''**Score:** '' @ py_str R (score e) @ ascii ''/10'' @ [10]
           else []) @
          (if truthy (episodes e) then ascii ''**Episodes:** '' @ py_str R (episodes e) @ [10]
           else []) @
          ascii ''**Synopsis:** '' @ synopsis e @ [10] @
          ascii ''[View on MAL]('' @ py_str R (url e) @ ascii '')'') \<and>
   (\<forall>i < length (take 5 (first # rest)).
        field_name (embed_fields (build_embed R now first rest) ! i) =
          [128250, 32] @ py_str R (title ((first # rest) ! i)) \<and>
        field_value (embed_fields (build_embed R now first rest) ! i) =
          detail_value R ((first # rest) ! i))"
proof -
  have c1: "embed_fields (build_embed R now first rest) =
     map (detail_field R) (take 5 (first # rest)) @
     (if 5 < length (first # rest) then [more_field (length (first # rest))] else [])"
    by (rule build_embed_fields)
  have c2: "5 < length (first # rest) \<longrightarrow>
      length (embed_fields (build_embed R now first rest)) = 6 \<and>
      field_value (more_field (length (first # rest))) =
        digits (length (first # rest) - 5) @ ascii '' additional anime updates!''"
  proof
    assume h: "5 < length (first # rest)"
    from h more_field_text [OF h] show "length (embed_fields (build_embed R now first rest)) = 6 \<and>
      field_value (more_field (length (first # rest))) =
        digits (length (first # rest) - 5) @ ascii '' additional anime updates!''"
      by (simp add: c1 min_def)
  qed
  have c3: "length (first # rest) \<le> 5 \<longrightarrow>
      embed_fields (build_embed R now first rest) = map (detail_field R) (first # rest)"
    by (simp add: c1)
  have c4: "\<forall>e n. detail_field R e \<noteq> more_field n"
    by (simp add: detail_not_more)
  have c5: "\<forall>e. field_name (detail_field R e) = [128250, 32] @ py_str R (title e) \<and>
        field_inline (detail_field R e) = False \<and>
        field_value (detail_field R e) =
          ascii ''**Status:** '' @ py_str R (status e) @ [10] @
          (if truthy (score e) then ascii ''**Score:** '' @ py_str R (score e) @ ascii ''/10'' @ [10]
           else []) @
          (if truthy (episodes e) then ascii ''**Episodes:** '' @ py_str R (episodes e) @ [10]
           else []) @
          ascii ''**Synopsis:** '' @ synopsis e @ [10] @
          ascii ''[View on MAL]('' @ py_str R (url e) @ ascii '')''"
    using detail_field_content by blast
  have c6: "\<forall>i < length (take 5 (first # rest)).
        field_name (embed_fields (build_embed R now first rest) ! i) =
          [128250, 32] @ py_str R (title ((first # rest) ! i)) \<and>
        field_value (embed_fields (build_embed R now first rest) ! i) =
          detail_value R ((first # rest) ! i)"
  proof (intro allI impI)
    fix i assume i: "i < length (take 5 (first # rest))"
    then have "embed_fields (build_embed R now first rest) ! i =
        detail_field R (take 5 (first # rest) ! i)"
      unfolding c1 by (rule nth_map_front)
    moreover from i have "take 5 (first # rest) ! i = (first # rest) ! i"
      by (rule nth_take_front)
    ultimately have "embed_fields (build_embed R now first rest) ! i =
        detail_field R ((first # rest) ! i)" by (rule trans [OF _ arg_cong])
    then show "field_name (embed_fields (build_embed R now first rest) ! i) =
          [128250, 32] @ py_str R (title ((first # rest) ! i)) \<and>
        field_value (embed_fields (build_embed R now first rest) ! i) =
          detail_value R ((first # rest) ! i)"
      by (simp add: detail_field_def)
  qed
  from c1 c2 c3 c4 c5 c6 show ?thesis by (intro conjI)
qed

theorem notification_cap_witness:
  "5 < length (airing_entry 1 ''A'' # [plain_entry 2 ''B'', airing_entry 3 ''C'', plain_entry 4 ''D'',
      plain_entry 5 ''E'', plain_entry 6 ''F'', plain_entry 7 ''G'', plain_entry 8 ''H'']) \<and>
   embed_fields (build_embed no_repr 0 (airing_entry 1 ''A'')
     [plain_entry 2 ''B'', airing_entry 3 ''C'', plain_entry 4 ''D'',
      plain_entry 5 ''E'', plain_entry 6 ''F'', plain_entry 7 ''G'', plain_entry 8 ''H'']) =
     [\<lparr> field_name = [128250, 32] @ ascii ''A'',
        field_value =
          ascii ''**Status:** Currently Airing'' @ [10] @ ascii ''**Score:** 9/10'' @ [10] @
          ascii ''**Episodes:** 12'' @ [10] @
          ascii ''**Synopsis:** No synopsis available'' @ [10] @
          ascii ''[View on MAL](https://myanimelist.net/anime/1)'',
        field_inline = False \<rparr>,
      \<lparr> field_name = [128250, 32] @ ascii ''B'',
        field_value =
          ascii ''**Status:** None'' @ [10] @
          ascii ''**Synopsis:** No synopsis available'' @ [10] @
          ascii ''[View on MAL](None)'',
        field_inline = False \<rparr>,
      \<lparr> field_name = [128250, 32] @ ascii ''C'',
        field_value =
          ascii ''**Status:** Currently Airing'' @ [10] @ ascii ''**Score:** 9/10'' @ [10] @
          ascii ''**Episodes:** 12'' @ [10] @
          ascii ''**Synopsis:** No synopsis available'' @ [10] @
          ascii ''[View on MAL](https://myanimelist.net/anime/3)'',
        field_inline = False \<rparr>,
      \<lparr> field_name = [128250, 32] @ ascii ''D'',
        field_value =
          ascii ''**Status:** None'' @ [10] @
          ascii ''**Synopsis:** No synopsis available'' @ [10] @
          ascii ''[View on MAL](None)'',
        field_inline = False \<rparr>,
      \<lparr> field_name = [128250, 32] @ ascii ''E'',
        field_value =
          ascii ''**Status:** None'' @ [10] @
          ascii ''**Synopsis:** No synopsis available'' @ [10] @
          ascii ''[View on MAL](None)'',
        field_inline = False \<rparr>,
      \<lparr> field_name = ascii ''And more...'',
        field_value = ascii ''3 additional anime updates!'',
        field_inline = False \<rparr>] \<and>
   length [airing_entry 1 ''A'', plain_entry 2 ''B''] \<le> 5 \<and>
   embed_fields (build_embed no_repr 0 (airing_entry 1 ''A'') [plain_entry 2 ''B'']) =
     [\<lparr> field_name = [128250, 32] @ ascii ''A'',
        field_value =
          ascii ''**Status:** Currently Airing'' @ [10] @ ascii ''**Score:** 9/10'' @ [10] @
          ascii ''**Episodes:** 12'' @ [10] @
          ascii ''**Synopsis:** No synopsis available'' @ [10] @
          ascii ''[View on MAL](https://myanimelist.net/anime/1)'',
        field_inline = False \<rparr>,
      \<lparr> field_name = [128250, 32] @ ascii ''B'',
        field_value =
          ascii ''**Status:** None'' @ [10] @
          ascii ''**Synopsis:** No synopsis available'' @ [10] @
          ascii ''[View on MAL](None)'',
        field_inline = False \<rparr>]"
proof -
  let ?rest = "[plain_entry 2 ''B'', airing_entry 3 ''C'', plain_entry 4 ''D'',
      plain_entry 5 ''E'', plain_entry 6 ''F'', plain_entry 7 ''G'', plain_entry 8 ''H'']"
  have eight: "5 < length (airing_entry 1 ''A'' # ?rest)" by simp
  have two: "length [airing_entry 1 ''A'', plain_entry 2 ''B''] \<le> 5" by simp
  have more: "more_field (length (airing_entry 1 ''A'' # ?rest)) =
      \<lparr> field_name = ascii ''And more...'',
        field_value = ascii ''3 additional anime updates!'',
        field_inline = False \<rparr>"
    by (simp add: more_field_def str_int_def digits.simps ascii_Nil ascii_Cons)
  have a1: "detail_field no_repr (airing_entry 1 ''A'') =
      \<lparr> field_name = [128250, 32] @ ascii ''A'',
        field_value =
          ascii ''**Status:** Currently Airing'' @ [10] @ ascii ''**Score:** 9/10'' @ [10] @
          ascii ''**Episodes:** 12'' @ [10] @
          ascii ''**Synopsis:** No synopsis available'' @ [10] @
          ascii ''[View on MAL](https://myanimelist.net/anime/1)'',
        field_inline = False \<rparr>"
    by (simp add: detail_field_def detail_value_lines status_line_def score_line_def
        episodes_line_def synopsis_line_def link_line_def airing_entry_def plain_entry_def
        str_int_def digits.simps ascii_Nil ascii_Cons)
  have a3: "detail_field no_repr (airing_entry 3 ''C'') =
      \<lparr> field_name = [128250, 32] @ ascii ''C'',
        field_value =
          ascii ''**Status:** Currently Airing'' @ [10] @ ascii ''**Score:** 9/10'' @ [10] @
          ascii ''**Episodes:** 12'' @ [10] @
          ascii ''**Synopsis:** No synopsis available'' @ [10] @
          ascii ''[View on MAL](https://myanimelist.net/anime/3)'',
        field_inline = False \<rparr>"
    by (simp add: detail_field_def detail_value_lines status_line_def score_line_def
        episodes_line_def synopsis_line_def link_line_def airing_entry_def plain_entry_def
        str_int_def digits.simps ascii_Nil ascii_Cons)
  have p: "detail_field no_repr (plain_entry i t) =
      \<lparr> field_name = [128250, 32] @ ascii t,
        field_value =
          ascii ''**Status:** None'' @ [10] @
          ascii ''**Synopsis:** No synopsis available'' @ [10] @
          ascii ''[View on MAL](None)'',
        field_inline = False \<rparr>" for i t
    by (simp add: detail_field_def detail_value_lines status_line_def
        synopsis_line_def link_line_def plain_entry_def ascii_Nil ascii_Cons)
  have fields: "embed_fields (build_embed no_repr 0 (airing_entry 1 ''A'') ?rest) =
     map (detail_field no_repr) (take 5 (airing_entry 1 ''A'' # ?rest)) @
     (if 5 < length (airing_entry 1 ''A'' # ?rest)
      then [more_field (length (airing_entry 1 ''A'' # ?rest))] else [])"
    using notification_cap [of no_repr 0 "airing_entry 1 ''A''" ?rest] by (rule conjunct1)
  have a: "embed_fields (build_embed no_repr 0 (airing_entry 1 ''A'') ?rest) =
     [\<lparr> field_name = [128250, 32] @ ascii ''A'',
        field_value =
          ascii ''**Status:** Currently Airing'' @ [10] @ ascii ''**Score:** 9/10'' @ [10] @
          ascii ''**Episodes:** 12'' @ [10] @
          ascii ''**Synopsis:** No synopsis available'' @ [10] @
          ascii ''[View on MAL](https://myanimelist.net/anime/1)'',
        field_inline = False \<rparr>,
      \<lparr> field_name = [128250, 32] @ ascii ''B'',
        field_value =
          ascii ''**Status:** None'' @ [10] @
          ascii ''**Synopsis:** No synopsis available'' @ [10] @
          ascii ''[View on MAL](None)'',
        field_inline = False \<rparr>,
      \<lparr> field_name = [128250, 32] @ ascii ''C'',
        field_value =
          ascii ''**Status:** Currently Airing'' @ [10] @ ascii ''**Score:** 9/10'' @ [10] @
          ascii ''**Episodes:** 12'' @ [10] @
          ascii ''**Synopsis:** No synopsis available'' @ [10] @
          ascii ''[View on MAL](https://myanimelist.net/anime/3)'',
        field_inline = False \<rparr>,
      \<lparr> field_name = [128250, 32] @ ascii ''D'',
        field_value =
          ascii ''**Status:** None'' @ [10] @
          ascii ''**Synopsis:** No synopsis available'' @ [10] @
          ascii ''[View on MAL](None)'',
        field_inline = False \<rparr>,
      \<lparr> field_name = [128250, 32] @ ascii ''E'',
        field_value =
          ascii ''**Status:** None'' @ [10] @
          ascii ''**Synopsis:** No synopsis available'' @ [10] @
          ascii ''[View on MAL](None)'',
        field_inline = False \<rparr>,
      \<lparr> field_name = ascii ''And more...'',
        field_value = ascii ''3 additional anime updates!'',
        field_inline = False \<rparr>]"
    unfolding fields more using eight by (simp add: a1 a3 p del: length_Cons)
  have fields2: "embed_fields (build_embed no_repr 0 (airing_entry 1 ''A'') [plain_entry 2 ''B'']) =
     map (detail_field no_repr) (take 5 [airing_entry 1 ''A'', plain_entry 2 ''B'']) @
     (if 5 < length [airing_entry 1 ''A'', plain_entry 2 ''B'']
      then [more_field (length [airing_entry 1 ''A'', plain_entry 2 ''B''])] else [])"
    using notification_cap [of no_repr 0 "airing_entry 1 ''A''" "[plain_entry 2 ''B'']"]
    by (rule conjunct1)
  have b: "embed_fields (build_embed no_repr 0 (airing_entry 1 ''A'') [plain_entry 2 ''B'']) =
     [\<lparr> field_name = [128250, 32] @ ascii ''A'',
        field_value =
          ascii ''**Status:** Currently Airing'' @ [10] @ ascii ''**Score:** 9/10'' @ [10] @
          ascii ''**Episodes:** 12'' @ [10] @
          ascii ''**Synopsis:** No synopsis available'' @ [10] @
          ascii ''[View on MAL](https://myanimelist.net/anime/1)'',
        field_inline = False \<rparr>,
      \<lparr> field_name = [128250, 32] @ ascii ''B'',
        field_value =
          ascii ''**Status:** None'' @ [10] @
          ascii ''**Synopsis:** No synopsis available'' @ [10] @
          ascii ''[View on MAL](None)'',
        field_inline = False \<rparr>]"
    unfolding fields2 by (simp add: a1 p)
  from eight two a b show ?thesis by (intro conjI)
qed

subsection \<open>Score and episodes lines\<close>

text \<open>
  C9, as the code has it. The block of an entry has the score line exactly when the
  score of the raw entry is true in Python's sense (present and not \<^verbatim>\<open>None\<close>, not zero,
  not empty, not \<^verbatim>\<open>False\<close>), and the episodes line exactly when the episode count is:
  the block is the status line, the score line if the score is true, the episodes line
  if the episode count is true, the synopsis line and the link.
\<close>

theorem score_and_episodes_lines:
  assumes "episode_info anime = Inr e"
  shows "score e = dict_get anime ''score'' JNull \<and>
         episodes e = dict_get anime ''episodes'' JNull \<and>
         (truthy (dict_get anime ''score'' JNull) \<longrightarrow> sublist (score_line R e) (detail_value R e)) \<and>
         (truthy (dict_get anime ''episodes'' JNull) \<longrightarrow>
            sublist (episodes_line R e) (detail_value R e)) \<and>
         detail_value R e =
           status_line R e @
           (if truthy (dict_get anime ''score'' JNull) then score_line R e else []) @
           (if truthy (dict_get anime ''episodes'' JNull) then episodes_line R e else []) @
           synopsis_line e @ link_line R e"
proof -
  note f = episode_info_fields [OF assms]
  from f have s: "score e = dict_get anime ''score'' JNull" by (rule conjunct1)
  from f have p: "episodes e = dict_get anime ''episodes'' JNull" by (rule conjunct2)
  have c3: "truthy (dict_get anime ''score'' JNull) \<longrightarrow> sublist (score_line R e) (detail_value R e)"
    using score_line_in_detail [of e R] s by simp
  have c4: "truthy (dict_get anime ''episodes'' JNull) \<longrightarrow>
      sublist (episodes_line R e) (detail_value R e)"
    using episodes_line_in_detail [of e R] p by simp
  have c5: "detail_value R e =
           status_line R e @
           (if truthy (dict_get anime ''score'' JNull) then score_line R e else []) @
           (if truthy (dict_get anime ''episodes'' JNull) then episodes_line R e else []) @
           synopsis_line e @ link_line R e"
    unfolding s [symmetric] p [symmetric] by (rule detail_value_lines)
  from s p c3 c4 c5 show ?thesis by (intro conjI)
qed

theorem score_and_episodes_lines_witness:
  "episode_info nine_scored = Inr ((plain_entry 1 ''A'')\<lparr>score := JInt 9, episodes := JInt 12\<rparr>) \<and>
   truthy (dict_get nine_scored ''score'' JNull) \<and>
   truthy (dict_get nine_scored ''episodes'' JNull) \<and>
   sublist (ascii ''**Score:** 9/10'' @ [10])
     (detail_value no_repr ((plain_entry 1 ''A'')\<lparr>score := JInt 9, episodes := JInt 12\<rparr>)) \<and>
   sublist (ascii ''**Episodes:** 12'' @ [10])
     (detail_value no_repr ((plain_entry 1 ''A'')\<lparr>score := JInt 9, episodes := JInt 12\<rparr>))"
proof -
  let ?e = "(plain_entry 1 ''A'')\<lparr>score := JInt 9, episodes := JInt 12\<rparr>"
  have run: "episode_info nine_scored = Inr ?e"
    by (simp add: nine_scored_def plain_entry_def run_simps)
  have t1: "truthy (dict_get nine_scored ''score'' JNull)"
    by (simp add: nine_scored_def run_simps)
  have t2: "truthy (dict_get nine_scored ''episodes'' JNull)"
    by (simp add: nine_scored_def run_simps)
  have l1: "score_line no_repr ?e = ascii ''**Score:** 9/10'' @ [10]"
    by (simp add: score_line_def plain_entry_def str_int_def digits.simps ascii_Nil ascii_Cons)
  have l2: "episodes_line no_repr ?e = ascii ''**Episodes:** 12'' @ [10]"
    by (simp add: episodes_line_def plain_entry_def str_int_def digits.simps ascii_Nil ascii_Cons)
  from score_and_episodes_lines [OF run, of no_repr] t1 t2
  have "sublist (score_line no_repr ?e) (detail_value no_repr ?e)"
    and "sublist (episodes_line no_repr ?e) (detail_value no_repr ?e)" by blast+
  with run t1 t2 show ?thesis unfolding l1 l2 by blast
qed

text \<open>
  C9, as stated, fails for a score and an episode count that are present and zero: the
  fields of the raw entry are not \<^verbatim>\<open>None\<close>, and the block has neither line.
\<close>

theorem score_and_episodes_lines_counterexample:
  "episode_info zero_scored = Inr ((plain_entry 1 ''A'')\<lparr>score := JInt 0, episodes := JInt 0\<rparr>) \<and>
   dict_get zero_scored ''score'' JNull \<noteq> JNull \<and>
   dict_get zero_scored ''episodes'' JNull \<noteq> JNull \<and>
   \<not> sublist (score_line no_repr ((plain_entry 1 ''A'')\<lparr>score := JInt 0, episodes := JInt 0\<rparr>))
      (detail_value no_repr ((plain_entry 1 ''A'')\<lparr>score := JInt 0, episodes := JInt 0\<rparr>)) \<and>
   \<not> sublist (episodes_line no_repr ((plain_entry 1 ''A'')\<lparr>score := JInt 0, episodes := JInt 0\<rparr>))
      (detail_value no_repr ((plain_entry 1 ''A'')\<lparr>score := JInt 0, episodes := JInt 0\<rparr>)) \<and>
   detail_value no_repr ((plain_entry 1 ''A'')\<lparr>score := JInt 0, episodes := JInt 0\<rparr>) =
     ascii ''**Status:** None'' @ [10] @ ascii ''**Synopsis:** No synopsis available'' @ [10] @
     ascii ''[View on MAL](None)''"
proof -
  let ?e = "(plain_entry 1 ''A'')\<lparr>score := JInt 0, episodes := JInt 0\<rparr>"
  have run: "episode_info zero_scored = Inr ?e"
    by (simp add: zero_scored_def plain_entry_def run_simps)
  have n1: "dict_get zero_scored ''score'' JNull \<noteq> JNull"
    by (simp add: zero_scored_def run_simps)
  have n2: "dict_get zero_scored ''episodes'' JNull \<noteq> JNull"
    by (simp add: zero_scored_def run_simps)
  have dv: "detail_value no_repr ?e =
     ascii ''**Status:** None'' @ [10] @ ascii ''**Synopsis:** No synopsis available'' @ [10] @
     ascii ''[View on MAL](None)''"
    by (simp add: detail_value_lines plain_entry_def status_line_def synopsis_line_def
        link_line_def ascii_Nil ascii_Cons)
  have s1: "\<not> sublist (score_line no_repr ?e) (detail_value no_repr ?e)"
    unfolding dv
    by (simp add: plain_entry_def score_line_def str_int_def digits.simps
        ascii_Nil ascii_Cons sublist_code)
  have s2: "\<not> sublist (episodes_line no_repr ?e) (detail_value no_repr ?e)"
    unfolding dv
    by (simp add: plain_entry_def episodes_line_def str_int_def digits.simps
        ascii_Nil ascii_Cons sublist_code)
  from run n1 n2 s1 s2 dv show ?thesis by (intro conjI)
qed

subsection \<open>The summary in every case\<close>

text \<open>
  C10. The value of line 92. A synopsis that is a non-empty string gives its first
  \<open>min 200 (length s)\<close> characters followed by \<open>...\<close>, also when it has 200 characters or
  fewer and nothing is cut. A synopsis that is missing, \<^verbatim>\<open>None\<close> or the empty string
  gives \<open>No synopsis available\<close>, with no marker. The entry built from the raw entry has
  that value as its summary.
\<close>

theorem synopsis_rule:
  "(map_of anime (ascii ''synopsis'') = Some (JStr s) \<and> s \<noteq> [] \<longrightarrow>
      synopsis_of anime = Inr (take (min 200 (length s)) s @ ascii ''...'')) \<and>
   (map_of anime (ascii ''synopsis'') = None \<or>
    map_of anime (ascii ''synopsis'') = Some JNull \<or>
    map_of anime (ascii ''synopsis'') = Some (JStr []) \<longrightarrow>
      synopsis_of anime = Inr (ascii ''No synopsis available'')) \<and>
   (\<forall>e. episode_info anime = Inr e \<longrightarrow> synopsis_of anime = Inr (synopsis e))"
proof -
  have "take (min 200 (length s)) s = take 200 s"
    by (cases "length s \<le> 200") (simp_all add: min_def)
  then have "map_of anime (ascii ''synopsis'') = Some (JStr s) \<and> s \<noteq> [] \<longrightarrow>
      synopsis_of anime = Inr (take (min 200 (length s)) s @ ascii ''...'')"
    by (simp add: synopsis_of_def dict_get_def)
  moreover have "map_of anime (ascii ''synopsis'') = None \<or>
    map_of anime (ascii ''synopsis'') = Some JNull \<or>
    map_of anime (ascii ''synopsis'') = Some (JStr []) \<longrightarrow>
      synopsis_of anime = Inr (ascii ''No synopsis available'')"
    by (auto simp: synopsis_of_def dict_get_def)
  moreover have "\<forall>e. episode_info anime = Inr e \<longrightarrow> synopsis_of anime = Inr (synopsis e)"
    by (simp add: synopsis_of_entry)
  ultimately show ?thesis by blast
qed

theorem synopsis_rule_witness:
  "synopsis_of [(ascii ''synopsis'', JStr (ascii ''Short.''))] = Inr (ascii ''Short....'') \<and>
   synopsis_of [(ascii ''synopsis'', JStr (replicate 201 97))] = Inr (replicate 200 97 @ ascii ''...'') \<and>
   synopsis_of [] = Inr (ascii ''No synopsis available'') \<and>
   synopsis_of [(ascii ''synopsis'', JNull)] = Inr (ascii ''No synopsis available'') \<and>
   synopsis_of [(ascii ''synopsis'', JStr [])] = Inr (ascii ''No synopsis available'') \<and>
   (\<exists>e. episode_info [(ascii ''synopsis'', JStr (ascii ''Short.''))] = Inr e \<and>
        synopsis e = ascii ''Short....'')"
proof -
  let ?k = "ascii ''synopsis''"
  have a: "map_of [(?k, JStr (ascii ''Short.''))] ?k = Some (JStr (ascii ''Short.'')) \<and> ascii ''Short.'' \<noteq> []"
    by (simp add: ascii_Cons)
  have b: "map_of [(?k, JStr (replicate 201 97))] ?k = Some (JStr (replicate 201 97)) \<and> replicate 201 (97::nat) \<noteq> []"
    by simp
  have c: "map_of ([] :: (pystr \<times> json) list) ?k = None" by simp
  have d: "map_of [(?k, JNull)] ?k = Some JNull" by simp
  have e: "map_of [(?k, JStr [])] ?k = Some (JStr [])" by simp
  have f: "\<exists>e. episode_info [(?k, JStr (ascii ''Short.''))] = Inr e"
    by (simp add: episode_info_def aired_from_of_def image_of_def synopsis_of_def dict_get_def
        Let_def ascii_Nil ascii_Cons)
  then obtain en where en: "episode_info [(?k, JStr (ascii ''Short.''))] = Inr en" ..
  have ra: "synopsis_of [(?k, JStr (ascii ''Short.''))] = Inr (ascii ''Short....'')"
    using synopsis_rule [of "[(?k, JStr (ascii ''Short.''))]" "ascii ''Short.''"] a
    by (simp add: ascii_Nil ascii_Cons)
  have rb: "synopsis_of [(?k, JStr (replicate 201 97))] = Inr (replicate 200 97 @ ascii ''...'')"
    using synopsis_rule [of "[(?k, JStr (replicate 201 97))]" "replicate 201 97"] b
    by simp
  have rc: "synopsis_of [] = Inr (ascii ''No synopsis available'')"
    using synopsis_rule [of "[]"] c by blast
  have rd: "synopsis_of [(?k, JNull)] = Inr (ascii ''No synopsis available'')"
    using synopsis_rule [of "[(?k, JNull)]"] d by blast
  have re: "synopsis_of [(?k, JStr [])] = Inr (ascii ''No synopsis available'')"
    using synopsis_rule [of "[(?k, JStr [])]"] e by blast
  have rf: "synopsis en = ascii ''Short....''"
    using synopsis_rule [of "[(?k, JStr (ascii ''Short.''))]"] en ra by auto
  from ra rb rc rd re en rf show ?thesis by blast
qed

end
